theory Spec2Isabelle
  imports Complex_Main "HOL-Library.Multiset"
begin

section \<open>JavaScript values read by the staff schedule component\<close>

text \<open>
  The component under study is \<open>src/client/components/StaffScheduleManager.tsx\<close>.
  Its helpers work on \<open>HH:MM\<close> strings, on numbers and on \<open>Date\<close> objects.
  A JavaScript number is an IEEE 754 double. The numbers that are integers in every run
  of the component (minutes, durations, time stamps) are \<open>int\<close>, and the rounding of
  each arithmetic operation on them is written out (\<open>to_double\<close>,
  \<open>Math_floor_div60\<close>); coordinates are \<open>real\<close>, and each operation on them is
  rounded to the nearest double (\<open>fl\<close>).

  \<open>TypeError\<close> and \<open>RangeError\<close> are the two exceptions the code can raise.
  \<open>NotModelled\<close> is not a JavaScript exception: it marks a time string on which
  JavaScript's \<open>Number\<close>, or a number on which \<open>toString\<close>, is not modelled (see
  \<open>Number_str\<close> and \<open>time_literal\<close>); the builder never produces it (lemma
  \<open>generateDaySchedule_errors\<close>).
\<close>

datatype js_error = TypeError | RangeError | NotModelled

subsection \<open>Numbers to strings and back\<close>

definition digit_char :: "nat \<Rightarrow> char" where
  "digit_char d = ''0123456789'' ! d"

definition digit_val :: "char \<Rightarrow> int option" where
  "digit_val c = map_of [(CHR ''0'', 0), (CHR ''1'', 1), (CHR ''2'', 2), (CHR ''3'', 3),
     (CHR ''4'', 4), (CHR ''5'', 5), (CHR ''6'', 6), (CHR ''7'', 7), (CHR ''8'', 8),
     (CHR ''9'', 9)] c"

text \<open>The decimal digits of a natural number, most significant first.\<close>

fun digits_of :: "nat \<Rightarrow> string" where
  "digits_of n =
     (if n < 10 then [digit_char n] else digits_of (n div 10) @ [digit_char (n mod 10)])"

declare digits_of.simps [simp del]

text \<open>\<open>Number.prototype.toString()\<close> on an integer.\<close>

definition toString_int :: "int \<Rightarrow> string" where
  "toString_int i = (if i < 0 then CHR ''-'' # digits_of (nat (- i)) else digits_of (nat i))"

text \<open>\<open>String.prototype.padStart(n, c)\<close> with a one-character filler.\<close>

definition padStart :: "nat \<Rightarrow> char \<Rightarrow> string \<Rightarrow> string" where
  "padStart n c s = replicate (n - length s) c @ s"

text \<open>\<open>String.prototype.split(sep)\<close> with a one-character separator.\<close>

fun split_on :: "char \<Rightarrow> string \<Rightarrow> string list" where
  "split_on sep [] = [[]]"
| "split_on sep (c # cs) =
     (if c = sep then [] # split_on sep cs
      else (case split_on sep cs of [] \<Rightarrow> [[c]] | p # ps \<Rightarrow> (c # p) # ps))"

fun digits_value :: "int \<Rightarrow> string \<Rightarrow> int option" where
  "digits_value acc [] = Some acc"
| "digits_value acc (c # cs) =
     (case digit_val c of None \<Rightarrow> None | Some d \<Rightarrow> digits_value (10 * acc + d) cs)"

text \<open>
  \<open>Number(s)\<close> on the strings the component feeds it: a non-empty run of decimal
  digits whose value is below \<open>2^53\<close> gives that value, which is a double. On every
  other string the result is \<open>None\<close>, which here means "outside the model" and not
  \<open>NaN\<close>: JavaScript rounds a longer run of digits, and also accepts white space, signs,
  fractions, exponents and radix prefixes, none of which occurs in a time string built by
  \<open>format(_, "HH:mm")\<close>, by the helpers below or written as a literal in the source.
\<close>

definition Number_str :: "string \<Rightarrow> int option" where
  "Number_str s =
     (if s = [] then None
      else case digits_value 0 s of
             None \<Rightarrow> None
           | Some v \<Rightarrow> if v < 2 ^ 53 then Some v else None)"

text \<open>\<open>const [hours, mins] = time.split(":").map(Number)\<close>\<close>

definition split_time :: "string \<Rightarrow> (int \<times> int) option" where
  "split_time t =
     (case map Number_str (split_on CHR '':'' t) of
        Some h # Some m # _ \<Rightarrow> Some (h, m)
      | _ \<Rightarrow> None)"

text \<open>JavaScript's \<open>%\<close> on integers: the result takes the sign of the dividend.\<close>

definition js_rem :: "int \<Rightarrow> int \<Rightarrow> int" where
  "js_rem a b = sgn a * (\<bar>a\<bar> mod \<bar>b\<bar>)"

subsection \<open>Double arithmetic on integers\<close>

text \<open>The number of binary digits of a positive integer; 0 for the others.\<close>

function bit_length :: "int \<Rightarrow> nat" where
  "bit_length n = (if n \<le> 0 then 0 else Suc (bit_length (n div 2)))"
  by pat_completeness auto
termination
  by (relation "measure nat") auto

declare bit_length.simps [simp del]

text \<open>The integer nearest to \<open>a / b\<close> for \<open>0 \<le> a\<close> and \<open>0 < b\<close>, a tie going to the even one.\<close>

definition round_half_even :: "int \<Rightarrow> int \<Rightarrow> int" where
  "round_half_even a b =
     (let q = a div b; r = a mod b
      in if 2 * r < b then q else if b < 2 * r then q + 1 else if even q then q else q + 1)"

text \<open>
  The double nearest to an integer: the integer itself when it has at most 53 binary
  digits, and otherwise the nearest multiple of the spacing \<open>2^(n - 53)\<close> of the doubles
  of its size, a tie going to the even significand. The sum, the difference and the
  product of two integer-valued doubles are \<open>to_double\<close> of the exact result. (Overflow to
  \<open>Infinity\<close> does not arise: in every sum or difference below, one operand at least is
  below \<open>2^60\<close> in magnitude, which is far less than half the spacing of the largest
  doubles.)
\<close>

definition to_double :: "int \<Rightarrow> int" where
  "to_double x =
     (let n = bit_length \<bar>x\<bar>
      in if n \<le> 53 then x
         else (let s = 2 ^ (n - 53) in sgn x * (round_half_even \<bar>x\<bar> s * s)))"

text \<open>
  \<open>Math.floor(t / 60)\<close> for an integer-valued double \<open>t\<close>: the quotient is rounded to
  a double before \<open>Math.floor\<close> sees it. With \<open>e\<close> the binary exponent of the quotient,
  the doubles near it are the multiples of \<open>2^(e - 52)\<close>.
\<close>

definition Math_floor_div60 :: "int \<Rightarrow> int" where
  "Math_floor_div60 t =
     (let a = \<bar>t\<bar>; q = a div 60
      in if q = 0 then (if t < 0 then - 1 else 0)
         else (let e = bit_length q - 1
               in if e \<le> 52
                  then (let k = 2 ^ (52 - e); m = round_half_even (a * k) 60
                        in if t < 0 then - ((m + k - 1) div k) else m div k)
                  else (let s = 2 ^ (e - 52); m = round_half_even a (60 * s)
                        in if t < 0 then - (m * s) else m * s)))"

section \<open>Time arithmetic helpers\<close>

text \<open>
  The template literal that ends \<open>addMinutes\<close> and \<open>subtractMinutes\<close>.
  \<open>Number.prototype.toString\<close> prints the exact digits of an integer below \<open>2^53\<close>
  in magnitude; beyond that it prints the shortest digits that read back as the same
  double, which is outside the model (\<open>None\<close>).
\<close>

definition time_literal :: "int \<Rightarrow> int \<Rightarrow> string option" where
  "time_literal newHours newMins =
     (if \<bar>newHours\<bar> < 2 ^ 53 \<and> \<bar>newMins\<bar> < 2 ^ 53
      then Some (padStart 2 CHR ''0'' (toString_int newHours) @ '':'' @
                 padStart 2 CHR ''0'' (toString_int newMins))
      else None)"

text \<open>
  \<open>minutes\<close> is an integer-valued double. \<open>%\<close> is exact on doubles; \<open>*\<close>, \<open>+\<close> and
  \<open>-\<close> round their exact result, and so does the division under \<open>Math.floor\<close>.
\<close>

definition addMinutes :: "string \<Rightarrow> int \<Rightarrow> string option" where
  "addMinutes t minutes =
     (case split_time t of
        None \<Rightarrow> None
      | Some (hours, mins) \<Rightarrow>
          (let totalMinutes = to_double (to_double (to_double (hours * 60) + mins) + minutes);
               newHours = js_rem (Math_floor_div60 totalMinutes) 24;
               newMins = js_rem totalMinutes 60
           in time_literal newHours newMins))"

definition subtractMinutes :: "string \<Rightarrow> int \<Rightarrow> string option" where
  "subtractMinutes t minutes =
     (case split_time t of
        None \<Rightarrow> None
      | Some (hours, mins) \<Rightarrow>
          (let totalMinutes = to_double (to_double (to_double (hours * 60) + mins) - minutes);
               newHours = max 0 (Math_floor_div60 totalMinutes);
               newMins = max 0 (js_rem totalMinutes 60)
           in time_literal newHours newMins))"

definition compareTime :: "string \<Rightarrow> string \<Rightarrow> int option" where
  "compareTime time1 time2 =
     (case (split_time time1, split_time time2) of
        (Some (h1, m1), Some (h2, m2)) \<Rightarrow>
          Some (to_double (to_double (to_double (h1 * 60) + m1) -
                           to_double (to_double (h2 * 60) + m2)))
      | _ \<Rightarrow> None)"

text \<open>
  The specification's reading of a time: a zero-padded two-digit hour and minute, and the
  \<open>HH:MM\<close> rendering of a minute count of the day. These two follow the specification's
  words and are what the helpers above are compared with.
\<close>

definition hhmm :: "nat \<Rightarrow> nat \<Rightarrow> string" where
  "hhmm h m = padStart 2 CHR ''0'' (digits_of h) @ '':'' @ padStart 2 CHR ''0'' (digits_of m)"

definition hhmm_of_minutes :: "nat \<Rightarrow> string" where
  "hhmm_of_minutes t = hhmm (t div 60) (t mod 60)"

section \<open>Duration policy table\<close>

text \<open>The argument is \<open>None\<close> when the category is \<open>undefined\<close>.\<close>

definition getJobDuration :: "string option \<Rightarrow> int" where
  "getJobDuration category =
     (if category = Some ''Geyser Replacement'' then 180
      else if category = Some ''Geyser Assessment'' then 60
      else if category = Some ''Leak Detection'' then 120
      else if category = Some ''Drain Blockage'' then 90
      else if category = Some ''Camera Inspection'' then 75
      else if category = Some ''Toilet/Shower'' then 90
      else 60)"

section \<open>Travel-time estimator\<close>

record coords =
  lat :: real
  lng :: real

text \<open>
  Coordinates are doubles, and a finite double is a real number. Every arithmetic
  operation returns the double nearest to its exact result, a tie going to the double
  with the even significand: \<open>fl\<close>. The doubles near \<open>x\<close> are the multiples of
  \<open>2^(e - 52)\<close>, where \<open>e\<close> is the binary exponent of \<open>x\<close>, and not below \<open>-1022\<close>,
  where the subnormal numbers begin.

  Overflow to \<open>Infinity\<close> is not represented. In \<open>estimateTravelTime\<close> it changes
  nothing: a quantity that overflows is far above 60 in the model too, and
  \<open>Math.min(60, Infinity)\<close> is 60.
\<close>

definition round_even :: "real \<Rightarrow> int" where
  "round_even x =
     (let f = \<lfloor>x\<rfloor>; r = x - of_int f
      in if r < 1 / 2 then f else if 1 / 2 < r then f + 1 else if even f then f else f + 1)"

definition binary_exponent :: "real \<Rightarrow> int" where
  "binary_exponent x = max \<lfloor>log 2 \<bar>x\<bar>\<rfloor> (- 1022)"

definition fl :: "real \<Rightarrow> real" where
  "fl x =
     (if x = 0 then 0
      else (let u = 2 powi (binary_exponent x - 52) in of_int (round_even (x / u)) * u))"

text \<open>
  \<open>Math.pow(x, 2)\<close>: for the exponent 2 the \<open>pow\<close> of the engines returns the product
  \<open>x * x\<close>, rounded. \<open>Math.sqrt\<close> is correctly rounded, as IEEE 754 requires.
\<close>

definition Math_pow_2 :: "real \<Rightarrow> real" where
  "Math_pow_2 x = fl (x * x)"

definition Math_sqrt :: "real \<Rightarrow> real" where
  "Math_sqrt x = fl (sqrt x)"

text \<open>
  \<open>Math.round\<close> rounds halves towards plus infinity, as \<open>round\<close> does
  (\<open>round x = \<lfloor>x + 1/2\<rfloor>\<close>).
\<close>

definition estimateTravelTime :: "coords \<Rightarrow> coords \<Rightarrow> int" where
  "estimateTravelTime from to =
     (let distance = Math_sqrt (fl (Math_pow_2 (fl (lat to - lat from)) +
                                    Math_pow_2 (fl (lng to - lng from))))
      in max 15 (min 60 (round (fl (distance * 3000)))))"

text \<open>The specification's clamp of a value to an interval.\<close>

definition clamp :: "int \<Rightarrow> int \<Rightarrow> int \<Rightarrow> int" where
  "clamp x lo hi = (if x < lo then lo else if hi < x then hi else x)"

section \<open>Dates\<close>

text \<open>
  A valid \<open>Date\<close> is modelled by what the component observes of it through
  \<open>date-fns\<close> and \<open>getTime()\<close>: its local calendar fields and its time stamp in
  milliseconds. The time stamp is counted on the local time line of a zone with a fixed
  offset, so that local midnight of 1 January 2024 is day 19723 after the epoch;
  differences of time stamps, which is all the week parity uses, and the sort comparator
  with the time stamps it gets from \<open>new Date\<close>, do not depend on the offset. The hour and the minute are read modulo 24 and 60, so
  that every record stands for a date. \<open>InvalidDate\<close> is JavaScript's Invalid Date.
\<close>

record datetime =
  d_year :: nat
  d_month :: nat
  d_day :: nat
  d_hours :: nat
  d_minutes :: nat
  getTime :: int

datatype Date = InvalidDate | ValidDate datetime

text \<open>
  \<open>format(d, "HH:mm")\<close> and \<open>format(d, "yyyy-MM-dd")\<close>. \<open>date-fns\<close> raises
  a \<open>RangeError\<close> on an Invalid Date, and turns \<open>null\<close> and \<open>undefined\<close> into an Invalid
  Date first.
\<close>

definition format_HHmm :: "Date \<Rightarrow> js_error + string" where
  "format_HHmm d =
     (case d of
        InvalidDate \<Rightarrow> Inl RangeError
      | ValidDate t \<Rightarrow>
          Inr (padStart 2 CHR ''0'' (digits_of (d_hours t mod 24)) @ '':'' @
               padStart 2 CHR ''0'' (digits_of (d_minutes t mod 60))))"

definition yyyyMMdd :: "datetime \<Rightarrow> string" where
  "yyyyMMdd t =
     padStart 4 CHR ''0'' (digits_of (d_year t)) @ ''-'' @
     padStart 2 CHR ''0'' (digits_of (d_month t)) @ ''-'' @
     padStart 2 CHR ''0'' (digits_of (d_day t))"

definition format_yyyyMMdd :: "Date option \<Rightarrow> js_error + string" where
  "format_yyyyMMdd d =
     (case d of
        Some (ValidDate t) \<Rightarrow> Inr (yyyyMMdd t)
      | _ \<Rightarrow> Inl RangeError)"

text \<open>\<open>isSameDay\<close>: the same local calendar day; false when either date is invalid.\<close>

definition isSameDay :: "Date \<Rightarrow> Date \<Rightarrow> bool" where
  "isSameDay a b =
     (case (a, b) of
        (ValidDate s, ValidDate t) \<Rightarrow> d_year s = d_year t \<and> d_month s = d_month t \<and> d_day s = d_day t
      | _ \<Rightarrow> False)"

text \<open>\<open>new Date(2024, 0, 1).getTime()\<close>\<close>

definition jan1_2024 :: int where
  "jan1_2024 = 19723 * 86400000"

text \<open>
  \<open>differenceInMinutes(date, new Date(2024, 0, 1))\<close>: the difference of the time stamps
  in minutes, truncated towards zero; \<open>None\<close> stands for \<open>NaN\<close>.
\<close>

definition differenceInMinutes_2024 :: "Date \<Rightarrow> int option" where
  "differenceInMinutes_2024 d =
     (case d of
        InvalidDate \<Rightarrow> None
      | ValidDate t \<Rightarrow>
          (let diff = getTime t - jan1_2024
           in Some (if 0 \<le> diff then diff div 60000 else - ((- diff) div 60000))))"

section \<open>Shift policy\<close>

text \<open>\<open>NaN % 2 === 1\<close> is false.\<close>

definition isLateShiftWeek :: "Date \<Rightarrow> bool" where
  "isLateShiftWeek date =
     (case differenceInMinutes_2024 date of
        None \<Rightarrow> False
      | Some mins \<Rightarrow> (let weekNumber = mins div (7 * 24 * 60) in js_rem weekNumber 2 = 1))"

section \<open>Staff, jobs and schedule entries\<close>

text \<open>
  Only the fields the schedule code reads are kept. An optional field is \<open>None\<close> when it
  is \<open>undefined\<close> or \<open>null\<close>; \<open>u_city\<close> is \<open>location?.city\<close> and the three schedule
  fields are those of \<open>schedule?\<close>.
\<close>

record user =
  u_id :: "string option"
  u_name :: "string option"
  u_role :: string
  u_city :: "string option"
  u_workingLateShift :: "bool option"
  u_shiftStartTime :: "string option"
  u_shiftEndTime :: "string option"

text \<open>
  The \<open>dueDate\<close> of a job is a string, which the source reads in two ways: with
  \<open>parseISO\<close> of \<open>date-fns\<close> in the filter and where the time slot of the job is
  formatted, and with \<open>new Date(...)\<close> in the sort comparator. These are different
  parsers: \<open>parseISO\<close> accepts ISO 8601 forms that \<open>new Date\<close> rejects, such as an
  hour without minutes (\<open>2024-01-02T10\<close>), and the two put a date without a time in
  different zones. A job carries both readings. \<open>j_dueDate\<close> is \<open>None\<close> for a missing
  or empty string and otherwise what \<open>parseISO\<close> returns, \<open>InvalidDate\<close> if it finds no
  date; \<open>j_dueTime\<close> is \<open>new Date(dueDate).getTime()\<close>, with \<open>None\<close> for \<open>NaN\<close>.
\<close>

record job =
  j_id :: "string option"
  j_assignedTo :: "string option"
  j_dueDate :: "Date option"
  j_dueTime :: "int option"
  j_category :: "string option"
  j_riskAddress :: "string option"
  j_RiskAddress :: "string option"
  j_title :: "string option"

datatype entry_type = Base | Job | Travel | End

record ScheduleEntry =
  time :: string
  type :: entry_type
  location :: "string option"
  description :: string
  jobId :: "string option"
  estimatedDuration :: "int option"
  coordinates :: "coords option"

text \<open>Truthiness of an optional string: \<open>undefined\<close>, \<open>null\<close> and \<open>""\<close> are falsy.\<close>

definition truthy :: "string option \<Rightarrow> bool" where
  "truthy s = (case s of None \<Rightarrow> False | Some v \<Rightarrow> v \<noteq> [])"

text \<open>\<open>a || b\<close> where \<open>b\<close> is a string literal.\<close>

definition or_default :: "string option \<Rightarrow> string \<Rightarrow> string" where
  "or_default a b = (case a of None \<Rightarrow> b | Some v \<Rightarrow> if v = [] then b else v)"

text \<open>A value inside a template literal.\<close>

definition template :: "string option \<Rightarrow> string" where
  "template s = (case s of None \<Rightarrow> ''undefined'' | Some v \<Rightarrow> v)"

section \<open>Base locations\<close>

record base_location =
  address :: "string option"
  base_coordinates :: "coords option"

text \<open>
  \<open>BASE_LOCATIONS\<close> is an object literal with two own keys. A decimal literal denotes
  the double nearest to it. A lookup with any other key
  walks the prototype chain: the names below are the properties of \<open>Object.prototype\<close>,
  for which the lookup yields a truthy function or object that has neither an
  \<open>address\<close> nor a \<open>coordinates\<close> property.
\<close>

definition object_prototype_keys :: "string list" where
  "object_prototype_keys =
     [''constructor'', ''hasOwnProperty'', ''isPrototypeOf'', ''propertyIsEnumerable'',
      ''toLocaleString'', ''toString'', ''valueOf'', ''__proto__'', ''__defineGetter__'',
      ''__defineSetter__'', ''__lookupGetter__'', ''__lookupSetter__'']"

definition BASE_LOCATIONS :: "string \<Rightarrow> base_location option" where
  "BASE_LOCATIONS k =
     (if k = ''Johannesburg'' then
        Some \<lparr>address = Some ''5 Thora Cres, Wynberg, Sandton, 2090'',
              base_coordinates = Some \<lparr>lat = fl (- 26.1076), lng = fl 28.0567\<rparr>\<rparr>
      else if k = ''Cape Town'' then
        Some \<lparr>address = Some ''98 Marine Dr, Paarden Eiland, Cape Town, 7405'',
              base_coordinates = Some \<lparr>lat = fl (- 33.8903), lng = fl 18.4979\<rparr>\<rparr>
      else if k \<in> set object_prototype_keys then
        Some \<lparr>address = None, base_coordinates = None\<rparr>
      else None)"

text \<open>
  The resolution of the base location in \<open>generateDaySchedule\<close>: the city, or
  Johannesburg when the city is falsy or the lookup is.
\<close>

definition baseLocationData :: "user \<Rightarrow> base_location" where
  "baseLocationData staffMember =
     (let baseLocationKey = or_default (u_city staffMember) ''Johannesburg''
      in case BASE_LOCATIONS baseLocationKey of
           Some b \<Rightarrow> b
         | None \<Rightarrow>
             \<lparr>address = Some ''5 Thora Cres, Wynberg, Sandton, 2090'',
              base_coordinates = Some \<lparr>lat = fl (- 26.1076), lng = fl 28.0567\<rparr>\<rparr>)"

section \<open>Day schedule builder\<close>

text \<open>
  \<open>xs.filter(x => x && ...)\<close>: the elements of the array may be \<open>null\<close>
  (\<open>None\<close>); those that pass the test are kept in their order.
\<close>

fun Array_filter :: "('a \<Rightarrow> bool) \<Rightarrow> 'a option list \<Rightarrow> 'a list" where
  "Array_filter P [] = []"
| "Array_filter P (None # xs) = Array_filter P xs"
| "Array_filter P (Some x # xs) = (if P x then x # Array_filter P xs else Array_filter P xs)"

definition dayJobs :: "job option list \<Rightarrow> user \<Rightarrow> Date \<Rightarrow> job list" where
  "dayJobs jobs staffMember date =
     Array_filter
       (\<lambda>job. j_assignedTo job = u_id staffMember \<and>
          (case j_dueDate job of None \<Rightarrow> False | Some d \<Rightarrow> isSameDay d date))
       jobs"

text \<open>
  The comparator handed to \<open>sort\<close>: 0 when either \<open>dueDate\<close> is missing, and otherwise
  the difference of the two \<open>new Date(...).getTime()\<close> values, which is \<open>NaN\<close> when
  either of them is. \<open>Array.prototype.sort\<close> takes a \<open>NaN\<close> result for 0, and so does
  the definition.
\<close>

definition dueDate_cmp :: "job \<Rightarrow> job \<Rightarrow> int" where
  "dueDate_cmp a b =
     (if j_dueDate a = None \<or> j_dueDate b = None then 0
      else case (j_dueTime a, j_dueTime b) of
             (Some s, Some t) \<Rightarrow> to_double (s - t)
           | _ \<Rightarrow> 0)"

text \<open>
  \<open>Array.prototype.sort\<close> is stable. On a comparator that orders the elements
  consistently every stable sort returns the same list; it is modelled by insertion
  sort, which puts an element before the first one it does not exceed. A comparator
  that \<open>NaN\<close> results make inconsistent leaves the order to the implementation, and
  insertion sort gives one of the possible results; two elements that compare as 0 both
  ways keep their order in every implementation.
\<close>

fun insert_by :: "('a \<Rightarrow> 'a \<Rightarrow> int) \<Rightarrow> 'a \<Rightarrow> 'a list \<Rightarrow> 'a list" where
  "insert_by cmp x [] = [x]"
| "insert_by cmp x (y # ys) = (if cmp x y \<le> 0 then x # y # ys else y # insert_by cmp x ys)"

definition Array_sort :: "('a \<Rightarrow> 'a \<Rightarrow> int) \<Rightarrow> 'a list \<Rightarrow> 'a list" where
  "Array_sort cmp xs = foldr (insert_by cmp) xs []"

definition sortedJobs :: "job option list \<Rightarrow> user \<Rightarrow> Date \<Rightarrow> job list" where
  "sortedJobs jobs staffMember date = Array_sort dueDate_cmp (dayJobs jobs staffMember date)"

definition isLateShift :: "user \<Rightarrow> Date \<Rightarrow> bool" where
  "isLateShift staffMember date =
     (case u_workingLateShift staffMember of
        Some True \<Rightarrow> True
      | _ \<Rightarrow> isLateShiftWeek date)"

definition shiftEnd :: "user \<Rightarrow> Date \<Rightarrow> string" where
  "shiftEnd staffMember date = (if isLateShift staffMember date then ''19:00'' else ''17:00'')"

definition base_entry :: "user \<Rightarrow> ScheduleEntry" where
  "base_entry staffMember =
     \<lparr>time = ''05:00'', type = Base,
      location = address (baseLocationData staffMember),
      description = ''Start shift at base location'',
      jobId = None, estimatedDuration = None,
      coordinates = base_coordinates (baseLocationData staffMember)\<rparr>"

text \<open>\<open>job.riskAddress || job.RiskAddress || "Location not specified"\<close>\<close>

definition jobLocation :: "job \<Rightarrow> string" where
  "jobLocation job =
     or_default (if truthy (j_riskAddress job) then j_riskAddress job else j_RiskAddress job)
       ''Location not specified''"

definition travel_entry :: "job \<Rightarrow> string \<Rightarrow> int \<Rightarrow> ScheduleEntry" where
  "travel_entry job travelStart travelTime =
     \<lparr>time = travelStart, type = Travel,
      location = Some (''En route to '' @ jobLocation job),
      description = ''Travel time: '' @ toString_int travelTime @ '' minutes'',
      jobId = None, estimatedDuration = Some travelTime, coordinates = None\<rparr>"

definition job_entry :: "job \<Rightarrow> string \<Rightarrow> ScheduleEntry" where
  "job_entry job jobTime =
     \<lparr>time = jobTime, type = Job,
      location = Some (jobLocation job),
      description = or_default (j_title job) ''Unnamed Job'',
      jobId = j_id job, estimatedDuration = Some (getJobDuration (j_category job)),
      coordinates = None\<rparr>"

definition end_entry :: "string \<Rightarrow> bool \<Rightarrow> ScheduleEntry" where
  "end_entry endTime late =
     \<lparr>time = endTime, type = End,
      location = Some ''End of shift'',
      description = ''Shift ends '' @ (if late then ''(Late Shift)'' else ''(Normal Shift)''),
      jobId = None, estimatedDuration = None, coordinates = None\<rparr>"

text \<open>
  The variables the loop over the sorted jobs updates. \<open>Math.random()\<close> is an arbitrary
  sequence \<open>rnd\<close> of numbers (in the browser, doubles from 0 up to but not including 1),
  of which \<open>drawn\<close> have been consumed; the sequence is a
  parameter of every function below, so a statement for all \<open>rnd\<close> holds for any values
  drawn.
\<close>

record loop_state =
  schedule :: "ScheduleEntry list"
  currentTime :: string
  currentLocation :: "coords option"
  drawn :: nat

text \<open>
  The object literal \<open>{lat: -26.2041 + Math.random() * 0.1, lng: 28.0473 + Math.random() *
  0.1}\<close>, on the draws \<open>k\<close> and \<open>k + 1\<close>.
\<close>

definition jitter :: "(nat \<Rightarrow> real) \<Rightarrow> nat \<Rightarrow> coords" where
  "jitter rnd k =
     \<lparr>lat = fl (fl (- 26.2041) + fl (rnd k * fl 0.1)),
      lng = fl (fl 28.0473 + fl (rnd (k + 1) * fl 0.1))\<rparr>"

text \<open>
  The body of \<open>sortedJobs.forEach\<close>. An exception leaves the loop with the number of
  random draws made so far. The arguments of \<open>estimateTravelTime\<close> are evaluated, with
  their two draws, before the call reads \<open>from.lat\<close>, which raises a \<open>TypeError\<close> when
  the current location is \<open>undefined\<close>.
\<close>

definition job_body :: "(nat \<Rightarrow> real) \<Rightarrow> job \<Rightarrow> loop_state \<Rightarrow> js_error \<times> nat + loop_state" where
  "job_body rnd job st =
     (if \<not> truthy (j_id job) then Inr st
      else
        case (case j_dueDate job of Some d \<Rightarrow> format_HHmm d | None \<Rightarrow> Inr ''08:00'') of
          Inl e \<Rightarrow> Inl (e, drawn st)
        | Inr jobTime \<Rightarrow>
            (let to = jitter rnd (drawn st) in
             case currentLocation st of
               None \<Rightarrow> Inl (TypeError, drawn st + 2)
             | Some from \<Rightarrow>
                 (let travelTime = estimateTravelTime from to in
                  case (if travelTime > 0 \<and> jobTime \<noteq> []
                        then map_option (\<lambda>travelStart. [travel_entry job travelStart travelTime])
                               (subtractMinutes jobTime travelTime)
                        else Some []) of
                    None \<Rightarrow> Inl (NotModelled, drawn st + 2)
                  | Some travel \<Rightarrow>
                      (let jobDuration = getJobDuration (Some (or_default (j_category job) ''Other''))
                       in case addMinutes jobTime jobDuration of
                            None \<Rightarrow> Inl (NotModelled, drawn st + 2)
                          | Some t \<Rightarrow>
                              Inr \<lparr>schedule = schedule st @ travel @ [job_entry job jobTime],
                                   currentTime = t,
                                   currentLocation = Some (jitter rnd (drawn st + 2)),
                                   drawn = drawn st + 4\<rparr>))))"

fun forEach_job :: "(nat \<Rightarrow> real) \<Rightarrow> job list \<Rightarrow> loop_state \<Rightarrow> js_error \<times> nat + loop_state" where
  "forEach_job rnd [] st = Inr st"
| "forEach_job rnd (job # js) st =
     (case job_body rnd job st of
        Inl e \<Rightarrow> Inl e
      | Inr st' \<Rightarrow> forEach_job rnd js st')"

text \<open>The loop variables after the base entry has been pushed.\<close>

definition loop_start :: "user \<Rightarrow> nat \<Rightarrow> loop_state" where
  "loop_start staffMember n =
     \<lparr>schedule = [base_entry staffMember], currentTime = ''05:00'',
      currentLocation = base_coordinates (baseLocationData staffMember), drawn = n\<rparr>"

text \<open>
  \<open>generateDaySchedule(staffMember, date)\<close>. The closure variable \<open>jobs\<close> and the random
  sequence with its position are arguments; the result comes with the new position.
\<close>

definition generateDaySchedule ::
  "(nat \<Rightarrow> real) \<Rightarrow> nat \<Rightarrow> job option list \<Rightarrow> user option \<Rightarrow> Date option
     \<Rightarrow> (js_error + ScheduleEntry list) \<times> nat" where
  "generateDaySchedule rnd n jobs staffMember date =
     (case (staffMember, date) of
        (Some s, Some d) \<Rightarrow>
          if \<not> truthy (u_id s) then (Inr [], n)
          else
            (let sorted = sortedJobs jobs s d
             in case forEach_job rnd sorted (loop_start s n) of
                  Inl (e, k) \<Rightarrow> (Inl e, k)
                | Inr st \<Rightarrow>
                    (let lastJobTime = (if length sorted > 0 then currentTime st else ''05:00'')
                     in case compareTime lastJobTime (shiftEnd s d) of
                          None \<Rightarrow> (Inl NotModelled, drawn st)
                        | Some c \<Rightarrow>
                            (let endTime = (if c > 0 then lastJobTime else shiftEnd s d)
                             in (Inr (schedule st @ [end_entry endTime (isLateShift s d)]),
                                 drawn st))))
      | _ \<Rightarrow> (Inr [], n))"

section \<open>Week schedule aggregator\<close>

type_synonym schedules = "string \<rightharpoonup> ScheduleEntry list"

text \<open>
  The body of \<open>weekDays.forEach\<close> for one staff member. A missing day is skipped. The
  key is formatted inside the \<open>try\<close> block before the builder is called, and formatted
  again inside the \<open>catch\<close> block: when \<open>format\<close> raises in the first place it raises
  there too, and the exception leaves \<open>generateSchedules\<close>. An exception of the builder
  is caught and the cell is set to the empty list.
\<close>

definition day_cell ::
  "(nat \<Rightarrow> real) \<Rightarrow> job option list \<Rightarrow> user \<Rightarrow> Date option \<Rightarrow> schedules \<times> nat
     \<Rightarrow> js_error + schedules \<times> nat" where
  "day_cell rnd jobs staffMember day acc =
     (case day of
        None \<Rightarrow> Inr acc
      | Some d \<Rightarrow>
          (case format_yyyyMMdd (Some d) of
             Inl e \<Rightarrow> Inl e
           | Inr ds \<Rightarrow>
               (let key = template (u_id staffMember) @ ''-'' @ ds
                in case generateDaySchedule rnd (snd acc) jobs (Some staffMember) (Some d) of
                     (Inr entries, k) \<Rightarrow> Inr ((fst acc)(key \<mapsto> entries), k)
                   | (Inl e, k) \<Rightarrow> Inr ((fst acc)(key \<mapsto> []), k))))"

fun forEach_day ::
  "(nat \<Rightarrow> real) \<Rightarrow> job option list \<Rightarrow> user \<Rightarrow> Date option list \<Rightarrow> schedules \<times> nat
     \<Rightarrow> js_error + schedules \<times> nat" where
  "forEach_day rnd jobs staffMember [] acc = Inr acc"
| "forEach_day rnd jobs staffMember (day # days) acc =
     (case day_cell rnd jobs staffMember day acc of
        Inl e \<Rightarrow> Inl e
      | Inr acc' \<Rightarrow> forEach_day rnd jobs staffMember days acc')"

fun forEach_staff ::
  "(nat \<Rightarrow> real) \<Rightarrow> job option list \<Rightarrow> Date option list \<Rightarrow> user list \<Rightarrow> schedules \<times> nat
     \<Rightarrow> js_error + schedules \<times> nat" where
  "forEach_staff rnd jobs weekDays [] acc = Inr acc"
| "forEach_staff rnd jobs weekDays (staffMember # rest) acc =
     (if \<not> truthy (u_id staffMember) then forEach_staff rnd jobs weekDays rest acc
      else
        case forEach_day rnd jobs staffMember weekDays acc of
          Inl e \<Rightarrow> Inl e
        | Inr acc' \<Rightarrow> forEach_staff rnd jobs weekDays rest acc')"

text \<open>
  \<open>generateSchedules()\<close>: the closure variables \<open>staff\<close>, \<open>jobs\<close> and \<open>weekDays\<close> are
  arguments. The result is the map handed to \<open>setSchedules\<close> with the position reached
  in the random sequence, or the exception that leaves the function.
\<close>

definition generateSchedules ::
  "(nat \<Rightarrow> real) \<Rightarrow> nat \<Rightarrow> job option list \<Rightarrow> user option list \<Rightarrow> Date option list
     \<Rightarrow> js_error + schedules \<times> nat" where
  "generateSchedules rnd n jobs staff weekDays =
     forEach_staff rnd jobs weekDays
       (Array_filter (\<lambda>s. u_role s = ''staff'' \<and> truthy (u_id s)) staff)
       (Map.empty, n)"

section \<open>CSV export\<close>

text \<open>\<open>Array.prototype.join(sep)\<close> on an array of strings.\<close>

fun join :: "string \<Rightarrow> string list \<Rightarrow> string" where
  "join sep [] = []"
| "join sep [x] = x"
| "join sep (x # y # ys) = x @ sep @ join sep (y # ys)"

definition type_string :: "entry_type \<Rightarrow> string" where
  "type_string t = (case t of Base \<Rightarrow> ''base'' | Job \<Rightarrow> ''job'' | Travel \<Rightarrow> ''travel'' | End \<Rightarrow> ''end'')"

definition quoted :: "string \<Rightarrow> string" where
  "quoted s = [CHR 0x22] @ s @ [CHR 0x22]"

definition csv_header :: string where
  "csv_header =
     join '','' [''Date'', ''Time'', ''Type'', ''Location'', ''Description'', ''Duration (min)'']"

text \<open>One row; \<open>entry.estimatedDuration || 0\<close> is 0 for a missing duration.\<close>

definition csv_row :: "string \<Rightarrow> ScheduleEntry \<Rightarrow> string" where
  "csv_row ds entry =
     join '',''
       [ds, time entry, type_string (type entry), quoted (template (location entry)),
        quoted (description entry),
        toString_int (case estimatedDuration entry of None \<Rightarrow> 0 | Some t \<Rightarrow> t)]"

text \<open>\<open>schedules[key] || []\<close>\<close>

definition daySchedule :: "schedules \<Rightarrow> string \<Rightarrow> string \<Rightarrow> ScheduleEntry list" where
  "daySchedule schedules staffId ds =
     (case schedules (staffId @ ''-'' @ ds) of None \<Rightarrow> [] | Some entries \<Rightarrow> entries)"

text \<open>The rows pushed by \<open>weekDays.forEach\<close>, in the order they are pushed.\<close>

fun export_rows :: "schedules \<Rightarrow> string \<Rightarrow> Date option list \<Rightarrow> js_error + string list" where
  "export_rows schedules staffId [] = Inr []"
| "export_rows schedules staffId (day # days) =
     (case format_yyyyMMdd day of
        Inl e \<Rightarrow> Inl e
      | Inr ds \<Rightarrow>
          (case export_rows schedules staffId days of
             Inl e \<Rightarrow> Inl e
           | Inr rows \<Rightarrow> Inr (map (csv_row ds) (daySchedule schedules staffId ds) @ rows)))"

text \<open>\<open>staff.find((s) => s && s.id === staffId)\<close>\<close>

fun find_staff :: "user option list \<Rightarrow> string \<Rightarrow> user option" where
  "find_staff [] staffId = None"
| "find_staff (None # rest) staffId = find_staff rest staffId"
| "find_staff (Some s # rest) staffId =
     (if u_id s = Some staffId then Some s else find_staff rest staffId)"

text \<open>
  \<open>exportScheduleCSV(staffId)\<close>: \<open>None\<close> when no staff member has the id (the function
  returns without a download), otherwise the name of the download and the text of the
  file. Creating the blob and clicking the link are not modelled.
\<close>

definition exportScheduleCSV ::
  "user option list \<Rightarrow> schedules \<Rightarrow> Date option list \<Rightarrow> Date option \<Rightarrow> string
     \<Rightarrow> js_error + (string \<times> string) option" where
  "exportScheduleCSV staff schedules weekDays weekStart staffId =
     (case find_staff staff staffId of
        None \<Rightarrow> Inr None
      | Some staffMember \<Rightarrow>
          (case export_rows schedules staffId weekDays of
             Inl e \<Rightarrow> Inl e
           | Inr rows \<Rightarrow>
               (let csvContent = join [CHR 0x0A] (csv_header # rows)
                in case format_yyyyMMdd weekStart of
                     Inl e \<Rightarrow> Inl e
                   | Inr ws \<Rightarrow>
                       Inr (Some (template (u_name staffMember) @ ''_schedule_'' @ ws @ ''.csv'',
                                  csvContent)))))"

section \<open>Notions used to state the properties\<close>

text \<open>
  A staff member the builder can run on: the id is present, and the city is not the name
  of a property that \<open>BASE_LOCATIONS\<close> inherits from \<open>Object.prototype\<close> (any other
  city, or none, resolves to one of the two base locations).
\<close>

definition valid_staff :: "user \<Rightarrow> bool" where
  "valid_staff s =
     (truthy (u_id s) \<and> or_default (u_city s) ''Johannesburg'' \<notin> set object_prototype_keys)"

text \<open>
  The due time of a job, in milliseconds: the time stamp of the date that the filter and
  the time slot read with \<open>parseISO\<close>. The comparator reads the same time when
  \<open>new Date\<close> agrees with \<open>parseISO\<close> on the job's string.
\<close>

definition due_ms :: "job \<Rightarrow> int" where
  "due_ms j = (case j_dueDate j of Some (ValidDate t) \<Rightarrow> getTime t | _ \<Rightarrow> 0)"

definition has_valid_dueDate :: "job \<Rightarrow> bool" where
  "has_valid_dueDate j = (case j_dueDate j of Some (ValidDate t) \<Rightarrow> True | _ \<Rightarrow> False)"

definition parsers_agree :: "job \<Rightarrow> bool" where
  "parsers_agree j = (has_valid_dueDate j \<longrightarrow> j_dueTime j = Some (due_ms j))"

text \<open>The \<open>HH:mm\<close> slot of a job whose due date is valid.\<close>

definition due_slot :: "job \<Rightarrow> string" where
  "due_slot j =
     (case j_dueDate j of
        Some (ValidDate t) \<Rightarrow> hhmm (d_hours t mod 24) (d_minutes t mod 60)
      | _ \<Rightarrow> ''08:00'')"

section \<open>Example inputs\<close>

text \<open>
  The end-to-end example of the specification: a Cape Town staff member with one leak
  detection job due at 08:00 on 2 January 2024, and variants of it. The staff member
  carries the optional field \<open>shiftStartTime\<close>, which the builder never reads.
\<close>

definition ex_staff :: user where
  "ex_staff =
     \<lparr>u_id = Some ''s1'', u_name = Some ''Thabo'', u_role = ''staff'',
      u_city = Some ''Cape Town'', u_workingLateShift = None,
      u_shiftStartTime = Some ''06:30'', u_shiftEndTime = None\<rparr>"

definition ex_day :: Date where
  "ex_day =
     ValidDate \<lparr>d_year = 2024, d_month = 1, d_day = 2, d_hours = 0, d_minutes = 0,
                getTime = jan1_2024 + 86400000\<rparr>"

definition ex_date :: datetime where
  "ex_date =
     \<lparr>d_year = 2024, d_month = 1, d_day = 2, d_hours = 0, d_minutes = 0,
      getTime = jan1_2024 + 86400000\<rparr>"

definition ex_job :: job where
  "ex_job =
     \<lparr>j_id = Some ''j1'', j_assignedTo = Some ''s1'',
      j_dueDate = Some (ValidDate \<lparr>d_year = 2024, d_month = 1, d_day = 2, d_hours = 8,
                                   d_minutes = 0, getTime = jan1_2024 + 86400000 + 8 * 3600000\<rparr>),
      j_dueTime = Some (jan1_2024 + 86400000 + 8 * 3600000),
      j_category = Some ''Leak Detection'', j_riskAddress = Some ''123 Main Rd'',
      j_RiskAddress = None, j_title = None\<rparr>"

text \<open>
  Two jobs of the same staff member whose \<open>dueDate\<close> strings are \<open>2024-01-02T10\<close> and
  \<open>2024-01-02T08\<close>: \<open>parseISO\<close> reads 10:00 and 08:00 on 2 January 2024, and
  \<open>new Date\<close> reads an Invalid Date from each, whose \<open>getTime()\<close> is \<open>NaN\<close>.
\<close>

definition ex_job_10 :: job where
  "ex_job_10 =
     \<lparr>j_id = Some ''j10'', j_assignedTo = Some ''s1'',
      j_dueDate = Some (ValidDate \<lparr>d_year = 2024, d_month = 1, d_day = 2, d_hours = 10,
                                   d_minutes = 0, getTime = jan1_2024 + 86400000 + 10 * 3600000\<rparr>),
      j_dueTime = None,
      j_category = Some ''Leak Detection'', j_riskAddress = Some ''7 Long St'',
      j_RiskAddress = None, j_title = Some ''Leak at 10''\<rparr>"

definition ex_job_08 :: job where
  "ex_job_08 =
     \<lparr>j_id = Some ''j08'', j_assignedTo = Some ''s1'',
      j_dueDate = Some (ValidDate \<lparr>d_year = 2024, d_month = 1, d_day = 2, d_hours = 8,
                                   d_minutes = 0, getTime = jan1_2024 + 86400000 + 8 * 3600000\<rparr>),
      j_dueTime = None,
      j_category = Some ''Leak Detection'', j_riskAddress = Some ''9 Kloof St'',
      j_RiskAddress = None, j_title = Some ''Leak at 8''\<rparr>"

text \<open>Every draw of \<open>Math.random()\<close> is one half.\<close>

definition ex_rnd :: "nat \<Rightarrow> real" where
  "ex_rnd k = 1 / 2"

text \<open>Monday 8 January 2024, in week 1 after the reference date, a late week.\<close>

definition ex_late_day :: Date where
  "ex_late_day =
     ValidDate \<lparr>d_year = 2024, d_month = 1, d_day = 8, d_hours = 0, d_minutes = 0,
                getTime = jan1_2024 + 7 * 86400000\<rparr>"

text \<open>
  A staff member whose city is the name of a property of \<open>Object.prototype\<close>; a job
  whose address has two lines; the schedule map with the example day, and one whose
  only entry is the job entry of the two-line job.
\<close>

definition ex_proto_staff :: user where
  "ex_proto_staff = ex_staff\<lparr>u_city := Some ''toString''\<rparr>"

definition ex_multiline_job :: job where
  "ex_multiline_job = ex_job\<lparr>j_riskAddress := Some (''12 Main Rd'' @ [CHR 0x0A] @ ''Unit 4'')\<rparr>"

definition ex_schedules :: schedules where
  "ex_schedules =
     [''s1-2024-01-02'' \<mapsto>
        [base_entry ex_staff, travel_entry ex_job ''07:00'' 60, job_entry ex_job ''08:00'',
         end_entry ''17:00'' False]]"

definition ex_multiline_schedules :: schedules where
  "ex_multiline_schedules = [''s1-2024-01-02'' \<mapsto> [job_entry ex_multiline_job ''08:00'']]"

text \<open>
  The key under which the aggregator stores the cell of a staff member and a valid day,
  and the number of entries a week of the schedule map holds for a staff id.
\<close>

definition cell_key :: "user \<Rightarrow> datetime \<Rightarrow> string" where
  "cell_key staffMember t = template (u_id staffMember) @ ''-'' @ yyyyMMdd t"

definition week_entries :: "schedules \<Rightarrow> string \<Rightarrow> datetime list \<Rightarrow> nat" where
  "week_entries schedules staffId ts =
     sum_list (map (\<lambda>t. length (daySchedule schedules staffId (yyyyMMdd t))) ts)"

text \<open>
  The rows the specification describes: one per entry, day by day in the order of the
  week, each day's entries in the order of its list.
\<close>

definition week_rows :: "schedules \<Rightarrow> string \<Rightarrow> datetime list \<Rightarrow> string list" where
  "week_rows schedules staffId ts =
     concat (map (\<lambda>t. map (csv_row (yyyyMMdd t)) (daySchedule schedules staffId (yyyyMMdd t))) ts)"

definition newline :: char where
  "newline = CHR 0x0A"

section \<open>Digits, padding and splitting\<close>

lemma digit_val_digit_char: "d < 10 \<Longrightarrow> digit_val (digit_char d) = Some (int d)"
proof -
  assume "d < 10"
  then have "d \<in> {0, 1, 2, 3, 4, 5, 6, 7, 8, 9}" by auto
  then show ?thesis by (auto simp: digit_val_def digit_char_def)
qed

lemma digit_char_in_digits: "d < 10 \<Longrightarrow> digit_char d \<in> set ''0123456789''"
  unfolding digit_char_def by (rule nth_mem) simp

lemma digits_of_subset: "set (digits_of n) \<subseteq> set ''0123456789''"
proof (induction n rule: digits_of.induct)
  case (1 n)
  show ?case
  proof (cases "n < 10")
    case True
    then show ?thesis
      using digit_char_in_digits [of n] by (subst digits_of.simps) simp
  next
    case False
    have "n mod 10 < 10" by simp
    then have "digit_char (n mod 10) \<in> set ''0123456789''" by (rule digit_char_in_digits)
    with False 1 show ?thesis by (subst digits_of.simps) simp
  qed
qed

lemma digits_of_not_Nil: "digits_of n \<noteq> []"
  by (subst digits_of.simps) simp

lemma digits_value_append:
  "digits_value acc (xs @ ys) =
     (case digits_value acc xs of None \<Rightarrow> None | Some v \<Rightarrow> digits_value v ys)"
  by (induction xs arbitrary: acc) (auto split: option.splits)

lemma digits_value_digits_of: "digits_value 0 (digits_of n) = Some (int n)"
proof (induction n rule: digits_of.induct)
  case (1 n)
  show ?case
  proof (cases "n < 10")
    case True
    then show ?thesis
      by (subst digits_of.simps) (simp add: digit_val_digit_char)
  next
    case False
    have "digit_val (digit_char (n mod 10)) = Some (int (n mod 10))"
      by (rule digit_val_digit_char) simp
    moreover have "10 * int (n div 10) + int (n mod 10) = int n"
      by presburger
    ultimately show ?thesis
      using False 1 by (subst digits_of.simps) (simp add: digits_value_append)
  qed
qed

lemma digits_value_zeros: "digits_value 0 (replicate k CHR ''0'' @ s) = digits_value 0 s"
  by (induction k) (simp_all add: digit_val_def)

lemma Number_str_padStart:
  "n < 2 ^ 53 \<Longrightarrow> Number_str (padStart k CHR ''0'' (digits_of n)) = Some (int n)"
proof -
  assume "n < 2 ^ 53"
  then have "int n < int (2 ^ 53)" by (simp only: of_nat_less_iff)
  then have "int n < 2 ^ 53" by simp
  then show ?thesis
    by (simp add: Number_str_def padStart_def digits_of_not_Nil digits_value_zeros
        digits_value_digits_of)
qed

lemma padStart_digits_subset: "set (padStart k CHR ''0'' (digits_of n)) \<subseteq> set ''0123456789''"
  using digits_of_subset [of n] by (auto simp: padStart_def)

lemma split_on_no_sep: "sep \<notin> set s \<Longrightarrow> split_on sep s = [s]"
  by (induction s) auto

lemma split_on_append: "sep \<notin> set a \<Longrightarrow> split_on sep (a @ sep # b) = a # split_on sep b"
  by (induction a) auto

lemma split_time_hhmm: "h < 24 \<Longrightarrow> m < 60 \<Longrightarrow> split_time (hhmm h m) = Some (int h, int m)"
proof -
  assume h: "h < 24" and m: "m < 60"
  let ?a = "padStart 2 CHR ''0'' (digits_of h)" and ?b = "padStart 2 CHR ''0'' (digits_of m)"
  have a: "CHR '':'' \<notin> set ?a" using padStart_digits_subset [of 2 h] by auto
  have b: "CHR '':'' \<notin> set ?b" using padStart_digits_subset [of 2 m] by auto
  have "split_on CHR '':'' (hhmm h m) = [?a, ?b]"
    using split_on_append [OF a, of ?b] split_on_no_sep [OF b] by (simp add: hhmm_def)
  moreover have "Number_str ?a = Some (int h)" using h by (intro Number_str_padStart) simp
  moreover have "Number_str ?b = Some (int m)" using m by (intro Number_str_padStart) simp
  ultimately show ?thesis by (simp add: split_time_def)
qed

section \<open>Doubles that are integers\<close>

lemma bit_length_le: "n < 2 ^ k \<Longrightarrow> bit_length n \<le> k"
proof (induction k arbitrary: n)
  case 0
  then show ?case by (subst bit_length.simps) simp
next
  case (Suc k)
  show ?case
  proof (cases "n \<le> 0")
    case True
    then show ?thesis by (subst bit_length.simps) simp
  next
    case False
    from Suc.prems have "n div 2 < 2 ^ k" by simp
    from Suc.IH [OF this] False show ?thesis by (subst bit_length.simps) simp
  qed
qed

lemma to_double_pow53: "to_double (2 ^ 53) = 2 ^ 53" "to_double (- (2 ^ 53)) = - (2 ^ 53)"
  by code_simp+

lemma to_double_exact: "\<bar>x\<bar> \<le> 2 ^ 53 \<Longrightarrow> to_double x = x"
proof (cases "\<bar>x\<bar> < 2 ^ 53")
  case True
  then show ?thesis
    using bit_length_le [of "\<bar>x\<bar>" 53] by (simp add: to_double_def Let_def)
next
  case False
  assume "\<bar>x\<bar> \<le> 2 ^ 53"
  with False have "x = 2 ^ 53 \<or> x = - (2 ^ 53)" by linarith
  then show ?thesis using to_double_pow53 by auto
qed

lemma round_half_even_bounds:
  assumes "0 < b"
  shows "2 * a - b \<le> 2 * (b * round_half_even a b)"
    and "2 * (b * round_half_even a b) \<le> 2 * a + b"
proof -
  define q where "q = a div b"
  define r where "r = a mod b"
  define p where "p = b * q"
  have a: "a = p + r" by (simp add: q_def r_def p_def)
  have r: "0 \<le> r" "r < b" using assms by (simp_all add: r_def)
  have s: "b * (q + 1) = p + b" by (simp add: algebra_simps p_def)
  have e: "round_half_even a b =
      (if 2 * r < b then q else if b < 2 * r then q + 1 else if even q then q else q + 1)"
    by (simp add: round_half_even_def Let_def q_def r_def)
  have c: "(2 * r \<le> b \<and> b * round_half_even a b = p) \<or>
      (b \<le> 2 * r \<and> b * round_half_even a b = p + b)"
    unfolding e using s by (auto simp: p_def)
  show "2 * a - b \<le> 2 * (b * round_half_even a b)"
    using c r unfolding a by auto
  show "2 * (b * round_half_even a b) \<le> 2 * a + b"
    using c r unfolding a by auto
qed

lemma round_half_even_nonneg: "0 \<le> a \<Longrightarrow> 0 < b \<Longrightarrow> 0 \<le> round_half_even a b"
  by (auto simp: round_half_even_def Let_def pos_imp_zdiv_nonneg_iff intro: add_nonneg_nonneg)

lemma to_double_nonpos: "x \<le> 0 \<Longrightarrow> to_double x \<le> 0"
proof -
  assume x: "x \<le> 0"
  have "\<And>n::nat. 0 \<le> round_half_even \<bar>x\<bar> (2 ^ n) * 2 ^ n"
    by (intro mult_nonneg_nonneg round_half_even_nonneg) simp_all
  with x show ?thesis
    by (auto simp: to_double_def Let_def sgn_if mult_le_0_iff)
qed

lemma Math_floor_div60_nonpos: "t \<le> 0 \<Longrightarrow> Math_floor_div60 t \<le> 0"
proof -
  assume t: "t \<le> 0"
  have 1: "\<And>n::nat. 0 \<le> (round_half_even (\<bar>t\<bar> * 2 ^ n) 60 + 2 ^ n - 1) div 2 ^ n"
  proof -
    fix n :: nat
    have "0 \<le> round_half_even (\<bar>t\<bar> * 2 ^ n) 60" by (intro round_half_even_nonneg) simp_all
    moreover have "(1::int) \<le> 2 ^ n" by simp
    ultimately have "0 \<le> round_half_even (\<bar>t\<bar> * 2 ^ n) 60 + 2 ^ n - 1" by linarith
    then show "0 \<le> (round_half_even (\<bar>t\<bar> * 2 ^ n) 60 + 2 ^ n - 1) div 2 ^ n"
      by (simp add: pos_imp_zdiv_nonneg_iff)
  qed
  have 2: "\<And>n::nat. 0 \<le> round_half_even \<bar>t\<bar> (60 * 2 ^ n) * 2 ^ n"
    by (intro mult_nonneg_nonneg round_half_even_nonneg) simp_all
  from t 1 2 show ?thesis
    by (auto simp: Math_floor_div60_def Let_def)
qed

lemma Math_floor_div60_exact:
  assumes "0 \<le> t" and "t \<le> 2 ^ 53"
  shows "Math_floor_div60 t = t div 60"
proof (cases "t div 60 = 0")
  case True
  with assms show ?thesis by (simp add: Math_floor_div60_def)
next
  case False
  define q where "q = t div 60"
  define r where "r = t mod 60"
  have t: "t = 60 * q + r" and r: "0 \<le> r" "r < 60" by (simp_all add: q_def r_def)
  have "q < 2 ^ 48"
  proof -
    have "60 * q \<le> t" using t r by simp
    with assms(2) show ?thesis by simp
  qed
  then have bl: "bit_length q \<le> 48" by (rule bit_length_le)
  define e where "e = bit_length q - 1"
  from bl have e: "e \<le> 47" by (simp add: e_def)
  define k :: int where "k = 2 ^ (52 - e)"
  have "(2::int) ^ 5 \<le> 2 ^ (52 - e)" using e by (intro power_increasing) simp_all
  then have k: "32 \<le> k" by (simp add: k_def)
  define m where "m = round_half_even (t * k) 60"
  from round_half_even_bounds [of 60 "t * k"]
  have lo: "2 * (t * k) - 60 \<le> 120 * m" and hi: "120 * m \<le> 2 * (t * k) + 60"
    by (simp_all add: m_def)
  have tk: "t * k = 60 * (q * k) + r * k" by (simp add: t algebra_simps)
  have rk: "0 \<le> r * k" "r * k \<le> 59 * k"
    using r k by (simp_all add: mult_right_mono)
  have m1: "q * k \<le> m" using lo tk rk by linarith
  have m2: "m < q * k + k" using hi tk rk k by linarith
  have "m div k = q"
  proof (rule int_div_pos_eq [where r = "m - q * k"])
    show "m = k * q + (m - q * k)" by (simp add: algebra_simps)
    show "0 \<le> m - q * k" using m1 by simp
    show "m - q * k < k" using m2 by simp
  qed
  moreover have "Math_floor_div60 t = m div k"
    using assms(1) False e
    by (simp add: Math_floor_div60_def Let_def m_def k_def e_def q_def)
  ultimately show ?thesis by (simp add: q_def)
qed

section \<open>Time helpers on well-formed times\<close>

lemma toString_int_nat: "toString_int (int k) = digits_of k"
  by (simp add: toString_int_def)

lemma js_rem_nonneg: "0 \<le> a \<Longrightarrow> 0 < b \<Longrightarrow> js_rem a b = a mod b"
  by (cases "a = 0") (simp_all add: js_rem_def)

lemma js_rem_nonpos: "a \<le> 0 \<Longrightarrow> 0 < b \<Longrightarrow> js_rem a b \<le> 0"
  by (cases "a = 0") (simp_all add: js_rem_def mult_le_0_iff)

lemma time_literal_hhmm: "h < 24 \<Longrightarrow> m < 60 \<Longrightarrow> time_literal (int h) (int m) = Some (hhmm h m)"
  by (simp add: time_literal_def toString_int_nat hhmm_def)

lemma div_of_mod_day: "(T mod 1440) div 60 = (T div 60) mod 24" for T :: nat
proof -
  have "T mod (60 * 24) = 60 * (T div 60 mod 24) + T mod 60"
    by (rule mod_mult2_eq)
  then have "T mod 1440 = 60 * (T div 60 mod 24) + T mod 60" by simp
  then show ?thesis by simp
qed

lemma mod_of_mod_day: "(T mod 1440) mod 60 = T mod 60" for T :: nat
  by (rule mod_mod_cancel) simp

lemma small_sum_exact:
  "h < 24 \<Longrightarrow> m < 60 \<Longrightarrow> to_double (to_double (int h * 60) + int m) = int (h * 60 + m)"
  by (simp add: to_double_exact)

lemma addMinutes_hhmm:
  assumes "h < 24" and "m < 60" and "h * 60 + m + n \<le> 2 ^ 53"
  shows "addMinutes (hhmm h m) (int n) = Some (hhmm_of_minutes ((h * 60 + m + n) mod 1440))"
proof -
  let ?T = "h * 60 + m + n"
  from assms(3) have "int ?T \<le> int (2 ^ 53)" by (simp only: of_nat_le_iff)
  then have le: "int ?T \<le> 2 ^ 53" by simp
  have "to_double (int (h * 60 + m) + int n) = int ?T"
    using le by (simp add: to_double_exact)
  then have tot: "to_double (to_double (to_double (int h * 60) + int m) + int n) = int ?T"
    by (simp only: small_sum_exact [OF assms(1,2)])
  have flo: "Math_floor_div60 (int ?T) = int ?T div 60"
    using le by (intro Math_floor_div60_exact) simp_all
  have hrs: "js_rem (int ?T div 60) 24 = int ((?T mod 1440) div 60)"
  proof -
    have "js_rem (int ?T div 60) 24 = (int ?T div 60) mod 24"
      by (rule js_rem_nonneg) simp_all
    also have "\<dots> = int ((?T div 60) mod 24)" by (simp only: zdiv_int zmod_int of_nat_numeral)
    finally show ?thesis by (simp only: div_of_mod_day)
  qed
  have mns: "js_rem (int ?T) 60 = int ((?T mod 1440) mod 60)"
  proof -
    have "js_rem (int ?T) 60 = int ?T mod 60"
      by (rule js_rem_nonneg) simp_all
    also have "\<dots> = int (?T mod 60)" by (simp only: zmod_int of_nat_numeral)
    finally show ?thesis by (simp only: mod_of_mod_day)
  qed
  have "addMinutes (hhmm h m) (int n) =
      time_literal (js_rem (int ?T div 60) 24) (js_rem (int ?T) 60)"
    by (simp only: addMinutes_def split_time_hhmm [OF assms(1,2)] option.case prod.case Let_def
        tot flo)
  also have "\<dots> = Some (hhmm ((?T mod 1440) div 60) ((?T mod 1440) mod 60))"
    unfolding hrs mns by (rule time_literal_hhmm) simp_all
  finally show ?thesis by (simp only: hhmm_of_minutes_def)
qed

lemma subtractMinutes_hhmm:
  assumes "h < 24" and "m < 60"
  shows "subtractMinutes (hhmm h m) (int n) = Some (hhmm_of_minutes (h * 60 + m - n))"
proof (cases "n \<le> h * 60 + m")
  case True
  let ?T = "h * 60 + m - n"
  from assms have small: "?T < 1440" by simp
  from True have "int (h * 60 + m) - int n = int ?T" by simp
  moreover have "to_double (int ?T) = int ?T"
    using small by (intro to_double_exact) simp
  ultimately have tot: "to_double (to_double (to_double (int h * 60) + int m) - int n) = int ?T"
    by (simp only: small_sum_exact [OF assms])
  have flo: "Math_floor_div60 (int ?T) = int ?T div 60"
    using small by (intro Math_floor_div60_exact) simp_all
  have hrs: "max 0 (int ?T div 60) = int (?T div 60)"
    by (simp add: zdiv_int)
  have mns: "max 0 (js_rem (int ?T) 60) = int (?T mod 60)"
  proof -
    have "js_rem (int ?T) 60 = int ?T mod 60"
      by (rule js_rem_nonneg) simp_all
    then show ?thesis by (simp add: zmod_int)
  qed
  have "subtractMinutes (hhmm h m) (int n) = time_literal (int (?T div 60)) (int (?T mod 60))"
    by (simp only: subtractMinutes_def split_time_hhmm [OF assms] option.case prod.case Let_def
        tot flo hrs mns)
  also have "\<dots> = Some (hhmm (?T div 60) (?T mod 60))"
    using small by (intro time_literal_hhmm) simp_all
  finally show ?thesis by (simp only: hhmm_of_minutes_def)
next
  case False
  define t where "t = to_double (int (h * 60 + m) - int n)"
  from False have "int (h * 60 + m) - int n \<le> 0" by simp
  then have neg: "t \<le> 0" unfolding t_def by (rule to_double_nonpos)
  have hrs: "max 0 (Math_floor_div60 t) = int 0"
    using Math_floor_div60_nonpos [OF neg] by simp
  have mns: "max 0 (js_rem t 60) = int 0"
    using js_rem_nonpos [OF neg, of 60] by simp
  from False have z: "h * 60 + m - n = 0" by simp
  have "subtractMinutes (hhmm h m) (int n) = time_literal (int 0) (int 0)"
    by (simp only: subtractMinutes_def split_time_hhmm [OF assms] option.case prod.case Let_def
        small_sum_exact [OF assms] hrs mns flip: t_def)
  also have "\<dots> = Some (hhmm 0 0)" by (rule time_literal_hhmm) simp_all
  finally show ?thesis by (simp add: hhmm_of_minutes_def z)
qed

lemma compareTime_hhmm:
  assumes "h1 < 24" and "m1 < 60" and "h2 < 24" and "m2 < 60"
  shows "compareTime (hhmm h1 m1) (hhmm h2 m2) =
     Some (int h1 * 60 + int m1 - (int h2 * 60 + int m2))"
proof -
  have "\<bar>int (h1 * 60 + m1) - int (h2 * 60 + m2)\<bar> \<le> 2 ^ 53"
    using assms by simp
  then have "to_double (int (h1 * 60 + m1) - int (h2 * 60 + m2)) =
      int (h1 * 60 + m1) - int (h2 * 60 + m2)"
    by (rule to_double_exact)
  then show ?thesis
    by (simp add: compareTime_def split_time_hhmm assms small_sum_exact)
qed

lemma hhmm_lits:
  "''05:00'' = hhmm 5 0" "''17:00'' = hhmm 17 0" "''19:00'' = hhmm 19 0" "''08:00'' = hhmm 8 0"
  by code_simp+

section \<open>Rounding to the nearest double\<close>

lemma round_even_eq: "\<bar>x - of_int n\<bar> < 1 / 2 \<Longrightarrow> round_even x = n"
proof -
  assume a: "\<bar>x - of_int n\<bar> < 1 / 2"
  show ?thesis
  proof (cases "of_int n \<le> x")
    case True
    with a have "\<lfloor>x\<rfloor> = n" by (intro floor_unique) linarith+
    with a True show ?thesis by (simp add: round_even_def Let_def)
  next
    case False
    with a have f: "\<lfloor>x\<rfloor> = n - 1" by (intro floor_unique) (simp, linarith+)
    from a False have "1 / 2 < x - of_int (n - 1)" by simp
    with f show ?thesis by (simp add: round_even_def Let_def)
  qed
qed

lemma round_even_error: "\<bar>of_int (round_even x) - x\<bar> \<le> 1 / 2"
proof -
  have "of_int \<lfloor>x\<rfloor> \<le> x" "x < of_int \<lfloor>x\<rfloor> + 1" by linarith+
  then show ?thesis by (auto simp: round_even_def Let_def)
qed

lemma round_even_nonneg: "0 \<le> x \<Longrightarrow> 0 \<le> round_even x"
proof -
  assume "0 \<le> x"
  then have "0 \<le> \<lfloor>x\<rfloor>" by simp
  then show ?thesis by (auto simp: round_even_def Let_def)
qed

lemma floor_log2: 
  assumes "2 powi e \<le> \<bar>x\<bar>" and "\<bar>x\<bar> < 2 powi (e + 1)"
  shows "\<lfloor>log 2 \<bar>x\<bar>\<rfloor> = e"
proof -
  have p: "0 < \<bar>x\<bar>" using assms(1) by (smt (verit) zero_less_power_int)
  have "(2::real) powr real_of_int e = 2 powi e" "(2::real) powr real_of_int (e + 1) = 2 powi (e + 1)"
    by (simp_all only: powr_real_of_int' [of 2, simplified])
  with assms have "2 powr real_of_int e \<le> \<bar>x\<bar> \<and> \<bar>x\<bar> < 2 powr (real_of_int e + 1)"
    by simp
  then show ?thesis using floor_log_eq_powr_iff [OF p, of 2 e] by simp
qed

lemma fl_eq:
  assumes "2 powi e \<le> \<bar>x\<bar>" and "\<bar>x\<bar> < 2 powi (e + 1)" and "- 1022 \<le> e"
    and "\<bar>x / 2 powi (e - 52) - of_int n\<bar> < 1 / 2"
  shows "fl x = of_int n * 2 powi (e - 52)"
proof -
  have "0 < \<bar>x\<bar>" using assms(1) by (smt (verit) zero_less_power_int)
  then have x: "x \<noteq> 0" by simp
  have "binary_exponent x = e"
    using floor_log2 [OF assms(1,2)] assms(3) by (simp add: binary_exponent_def)
  then show ?thesis
    using x round_even_eq [OF assms(4)] by (simp add: fl_def Let_def)
qed

lemma fl_0: "fl 0 = 0" by (simp add: fl_def)

lemma fl_nonneg: "0 \<le> x \<Longrightarrow> 0 \<le> fl x"
proof -
  assume x: "0 \<le> x"
  have "\<And>u::real. 0 < u \<Longrightarrow> 0 \<le> of_int (round_even (x / u)) * u"
    using x by (intro mult_nonneg_nonneg) (simp_all add: round_even_nonneg)
  then show ?thesis by (simp add: fl_def Let_def)
qed

lemma fl_error:
  assumes "2 powi (- 1022) \<le> \<bar>x\<bar>"
  shows "\<bar>fl x - x\<bar> \<le> \<bar>x\<bar> / 2 ^ 53"
proof -
  have p: "0 < \<bar>x\<bar>" using assms by (smt (verit) zero_less_power_int)
  then have x: "x \<noteq> 0" by simp
  define e where "e = \<lfloor>log 2 \<bar>x\<bar>\<rfloor>"
  have pw: "\<And>k. (2::real) powr real_of_int k = 2 powi k"
    by (simp only: powr_real_of_int' [of 2, simplified])
  from floor_log_eq_powr_iff [OF p, of 2 e] have "2 powr real_of_int e \<le> \<bar>x\<bar> \<and> \<bar>x\<bar> < 2 powr (real_of_int e + 1)"
    by (simp add: e_def)
  then have lo: "2 powi e \<le> \<bar>x\<bar>" and hi: "\<bar>x\<bar> < 2 powi (e + 1)"
    using pw [of e] pw [of "e + 1"] by simp_all
  have "(2::real) powi (- 1022) < 2 powi (e + 1)" using assms hi by linarith
  have "- 1022 < e + 1"
  proof (rule ccontr)
    assume "\<not> - 1022 < e + 1"
    then have "e + 1 \<le> - 1022" by simp
    then have "(2::real) powi (e + 1) \<le> 2 powi (- 1022)" by (intro power_int_increasing) simp_all
    with \<open>(2::real) powi (- 1022) < 2 powi (e + 1)\<close> show False by linarith
  qed
  then have be: "binary_exponent x = e" by (simp add: binary_exponent_def e_def)
  define u :: real where "u = 2 powi (e - 52)"
  have u: "0 < u" by (simp add: u_def)
  have "fl x - x = (of_int (round_even (x / u)) - x / u) * u"
    using x u by (simp add: fl_def Let_def be u_def algebra_simps)
  then have "\<bar>fl x - x\<bar> = \<bar>of_int (round_even (x / u)) - x / u\<bar> * u"
    using u by (simp add: abs_mult)
  also have "\<dots> \<le> 1 / 2 * u"
    using u round_even_error [of "x / u"] by (intro mult_right_mono) simp_all
  also have "\<dots> = 2 powi e / 2 ^ 53"
    by (simp add: u_def power_int_diff)
  also have "\<dots> \<le> \<bar>x\<bar> / 2 ^ 53" using lo by (simp add: divide_right_mono)
  finally show ?thesis .
qed

lemma fl_close:
  assumes "1 / 1000 \<le> \<bar>x\<bar>"
  shows "\<bar>fl x - x\<bar> \<le> \<bar>x\<bar> / 1000"
proof -
  have "(2::real) powi (- 1022) \<le> 1 / 1000" by (simp add: power_int_minus field_simps)
  with assms have "2 powi (- 1022) \<le> \<bar>x\<bar>" by linarith
  then have "\<bar>fl x - x\<bar> \<le> \<bar>x\<bar> / 2 ^ 53" by (rule fl_error)
  also have "\<dots> \<le> \<bar>x\<bar> / 1000" by (intro divide_left_mono) simp_all
  finally show ?thesis .
qed

lemma fl_pos_bounds:
  assumes "1 / 1000 \<le> x"
  shows "x * (999 / 1000) \<le> fl x" and "fl x \<le> x * (1001 / 1000)"
proof -
  from assms have "\<bar>x\<bar> = x" by simp
  with fl_close [of x] assms have "\<bar>fl x - x\<bar> \<le> x / 1000" by simp
  then show "x * (999 / 1000) \<le> fl x" and "fl x \<le> x * (1001 / 1000)" by linarith+
qed

lemma fl_neg_bounds:
  assumes "x \<le> - (1 / 1000)"
  shows "x * (1001 / 1000) \<le> fl x" and "fl x \<le> x * (999 / 1000)"
proof -
  from assms have "\<bar>x\<bar> = - x" by simp
  with fl_close [of x] assms have "\<bar>fl x - x\<bar> \<le> - x / 1000" by simp
  then show "x * (1001 / 1000) \<le> fl x" and "fl x \<le> x * (999 / 1000)" by linarith+
qed

lemma fl_ge:
  assumes "c \<le> x" and "1 / 1000 \<le> c"
  shows "c * (999 / 1000) \<le> fl x"
proof -
  from assms have "1 / 1000 \<le> x" by linarith
  from fl_pos_bounds(1) [OF this] assms(1) show ?thesis by linarith
qed

section \<open>The sort, the loop body and the loop\<close>

lemma set_Array_filter: "set (Array_filter P xs) = {x. Some x \<in> set xs \<and> P x}"
  by (induction P xs rule: Array_filter.induct) auto

lemma isSameDay_valid: "isSameDay a b \<Longrightarrow> \<exists>t. a = ValidDate t"
  by (cases a; cases b) (simp_all add: isSameDay_def)

lemma dayJobs_valid: "j \<in> set (dayJobs jobs s d) \<Longrightarrow> has_valid_dueDate j"
  by (auto simp: dayJobs_def set_Array_filter has_valid_dueDate_def
      split: option.splits dest: isSameDay_valid)

lemma set_dayJobs:
  "set (dayJobs jobs s d) =
     {j. Some j \<in> set jobs \<and> j_assignedTo j = u_id s \<and>
         (\<exists>dd. j_dueDate j = Some dd \<and> isSameDay dd d)}"
  by (auto simp: dayJobs_def set_Array_filter split: option.splits)

lemma mset_insert_by: "mset (insert_by cmp x ys) = add_mset x (mset ys)"
  by (induction ys) simp_all

lemma mset_Array_sort: "mset (Array_sort cmp xs) = mset xs"
  by (induction xs) (simp_all add: Array_sort_def mset_insert_by)

lemma sortedJobs_mset: "mset (sortedJobs jobs s d) = mset (dayJobs jobs s d)"
  by (simp add: sortedJobs_def mset_Array_sort)

lemma set_sortedJobs: "set (sortedJobs jobs s d) = set (dayJobs jobs s d)"
  using sortedJobs_mset [of jobs s d] by (rule mset_eq_setD)

lemma sortedJobs_valid: "j \<in> set (sortedJobs jobs s d) \<Longrightarrow> has_valid_dueDate j"
  by (simp add: set_sortedJobs dayJobs_valid)

lemma bit_length_ge: "0 < n \<Longrightarrow> 2 ^ (bit_length n - 1) \<le> n"
proof (induction n rule: bit_length.induct)
  case (1 n)
  show ?case
  proof (cases "n div 2 \<le> 0")
    case True
    with 1(2) have "n = 1" by simp
    moreover have "bit_length 1 = 1" by code_simp
    ultimately show ?thesis by simp
  next
    case False
    then have h: "0 < n div 2" by simp
    from 1(1) [OF _ h] 1(2) have ih: "2 ^ (bit_length (n div 2) - 1) \<le> n div 2" by simp
    from h have "bit_length (n div 2) = Suc (bit_length (n div 2 div 2))"
      by (subst bit_length.simps) simp
    then have "bit_length (n div 2) = Suc (bit_length (n div 2) - 1)" by simp
    moreover from 1(2) have "bit_length n = Suc (bit_length (n div 2))"
      by (subst bit_length.simps) simp
    ultimately have "(2::int) ^ (bit_length n - 1) = 2 * 2 ^ (bit_length (n div 2) - 1)"
      by (metis diff_Suc_1 power_Suc)
    also have "\<dots> \<le> 2 * (n div 2)" using ih by simp
    also have "\<dots> \<le> n" by simp
    finally show ?thesis .
  qed
qed

lemma to_double_pos: "0 < x \<Longrightarrow> 0 < to_double x"
proof (cases "bit_length \<bar>x\<bar> \<le> 53")
  case True
  assume "0 < x"
  with True show ?thesis by (simp add: to_double_def)
next
  case False
  assume x: "0 < x"
  define s :: int where "s = 2 ^ (bit_length x - 53)"
  have s: "0 < s" by (simp add: s_def)
  have "s \<le> 2 ^ (bit_length x - 1)"
    unfolding s_def by (intro power_increasing) simp_all
  also have "\<dots> \<le> x" using x by (rule bit_length_ge)
  finally have "s \<le> x" .
  then have "s div s \<le> x div s" using s by (intro zdiv_mono1) simp_all
  then have "1 \<le> x div s" using s by simp
  moreover have "x div s \<le> round_half_even x s"
    by (simp add: round_half_even_def Let_def)
  ultimately have "0 < round_half_even x s * s" using s by simp
  with False x show ?thesis by (simp add: to_double_def Let_def s_def)
qed

lemma to_double_nonpos_iff: "to_double x \<le> 0 \<longleftrightarrow> x \<le> 0"
  using to_double_pos [of x] to_double_nonpos [of x] by fastforce

lemma dueDate_cmp_agree:
  assumes "has_valid_dueDate a" and "parsers_agree a"
    and "has_valid_dueDate b" and "parsers_agree b"
  shows "dueDate_cmp a b \<le> 0 \<longleftrightarrow> due_ms a \<le> due_ms b"
proof -
  from assms have "j_dueDate a \<noteq> None" "j_dueDate b \<noteq> None"
    by (auto simp: has_valid_dueDate_def split: option.splits)
  moreover from assms have "j_dueTime a = Some (due_ms a)" "j_dueTime b = Some (due_ms b)"
    by (simp_all add: parsers_agree_def)
  ultimately show ?thesis
    by (auto simp: dueDate_cmp_def to_double_nonpos_iff)
qed

lemma insert_by_insort:
  assumes "has_valid_dueDate x" and "parsers_agree x"
    and "\<forall>y\<in>set ys. has_valid_dueDate y \<and> parsers_agree y"
  shows "insert_by dueDate_cmp x ys = insort_key due_ms x ys"
  using assms(3) by (induction ys) (simp_all add: dueDate_cmp_agree assms(1,2))

lemma Array_sort_sort_key:
  "\<forall>y\<in>set xs. has_valid_dueDate y \<and> parsers_agree y \<Longrightarrow>
     Array_sort dueDate_cmp xs = sort_key due_ms xs"
proof (induction xs)
  case Nil
  show ?case by (simp add: Array_sort_def)
next
  case (Cons x xs)
  then have ih: "Array_sort dueDate_cmp xs = sort_key due_ms xs" by simp
  have "Array_sort dueDate_cmp (x # xs) = insert_by dueDate_cmp x (Array_sort dueDate_cmp xs)"
    by (simp add: Array_sort_def)
  also have "\<dots> = insort_key due_ms x (sort_key due_ms xs)"
    unfolding ih using Cons.prems by (intro insert_by_insort) simp_all
  finally show ?case by (simp add: sort_key_def)
qed

text \<open>
  When \<open>new Date\<close> agrees with \<open>parseISO\<close> on every job of the list, the jobs of the day
  come out in ascending order of due time, jobs with the same due time in their order in
  the list.
\<close>

lemma sortedJobs_sort_key:
  assumes "\<forall>j. Some j \<in> set jobs \<longrightarrow> parsers_agree j"
  shows "sortedJobs jobs s d = sort_key due_ms (dayJobs jobs s d)"
  unfolding sortedJobs_def
proof (rule Array_sort_sort_key, intro ballI conjI)
  fix y assume y: "y \<in> set (dayJobs jobs s d)"
  then show "has_valid_dueDate y" by (rule dayJobs_valid)
  from y have "Some y \<in> set jobs" by (simp add: set_dayJobs)
  with assms show "parsers_agree y" by blast
qed

lemma sortedJobs_sorted:
  "\<forall>j. Some j \<in> set jobs \<longrightarrow> parsers_agree j \<Longrightarrow> sorted (map due_ms (sortedJobs jobs s d))"
  by (simp add: sortedJobs_sort_key)

lemma estimateTravelTime_bounds:
  "15 \<le> estimateTravelTime a b" "estimateTravelTime a b \<le> 60"
  by (simp_all add: estimateTravelTime_def Let_def)

lemma getJobDuration_pos: "0 < getJobDuration c"
  by (simp add: getJobDuration_def)

lemma getJobDuration_le: "getJobDuration c \<le> 180"
  by (simp add: getJobDuration_def)

lemma hhmm_not_Nil: "hhmm h m \<noteq> []"
  by (simp add: hhmm_def)

lemma job_body_skip: "\<not> truthy (j_id job) \<Longrightarrow> job_body rnd job st = Inr st"
  by (simp add: job_body_def)

lemma job_body_ok:
  fixes rnd :: "nat \<Rightarrow> real" and st :: loop_state and job :: job and "from" :: coords
  assumes "truthy (j_id job)" and "j_dueDate job = Some (ValidDate t)"
    and "currentLocation st = Some from"
  defines "tt \<equiv> estimateTravelTime from (jitter rnd (drawn st))"
    and "dur \<equiv> getJobDuration (Some (or_default (j_category job) ''Other''))"
    and "h \<equiv> d_hours t mod 24" and "m \<equiv> d_minutes t mod 60"
  shows "job_body rnd job st =
     Inr \<lparr>schedule = schedule st @
             [travel_entry job (hhmm_of_minutes (h * 60 + m - nat tt)) tt,
              job_entry job (hhmm h m)],
          currentTime = hhmm_of_minutes ((h * 60 + m + nat dur) mod 1440),
          currentLocation = Some (jitter rnd (drawn st + 2)),
          drawn = drawn st + 4\<rparr>"
proof -
  have h: "h < 24" and m: "m < 60" by (simp_all add: h_def m_def)
  have tt: "0 < tt" "tt = int (nat tt)"
    using estimateTravelTime_bounds(1) [of "from" "jitter rnd (drawn st)"] by (simp_all add: tt_def)
  have dur: "dur = int (nat dur)" "nat dur \<le> 180"
    using getJobDuration_pos [of "Some (or_default (j_category job) ''Other'')"]
      getJobDuration_le [of "Some (or_default (j_category job) ''Other'')"]
    by (simp_all add: dur_def)
  have fmt: "format_HHmm (ValidDate t) = Inr (hhmm h m)"
    by (simp add: format_HHmm_def hhmm_def h_def m_def)
  have sub: "subtractMinutes (hhmm h m) tt = Some (hhmm_of_minutes (h * 60 + m - nat tt))"
    by (subst tt(2)) (rule subtractMinutes_hhmm [OF h m])
  have "h * 60 + m + nat dur \<le> 2 ^ 53" using h m dur(2) by simp
  then have add: "addMinutes (hhmm h m) dur =
      Some (hhmm_of_minutes ((h * 60 + m + nat dur) mod 1440))"
    by (subst dur(1)) (rule addMinutes_hhmm [OF h m])
  show ?thesis
    using assms(1-3) tt(1)
    by (simp add: job_body_def fmt Let_def hhmm_not_Nil sub add
        flip: tt_def dur_def)
qed


lemma due_slot_valid:
  "j_dueDate job = Some (ValidDate t) \<Longrightarrow>
     due_slot job = hhmm (d_hours t mod 24) (d_minutes t mod 60)"
  by (simp add: due_slot_def)

lemma forEach_job_shape:
  assumes "currentLocation st \<noteq> None" and "\<forall>j\<in>set js. has_valid_dueDate j"
  shows "\<exists>st' segs. forEach_job rnd js st = Inr st' \<and>
     schedule st' = schedule st @ concat segs \<and>
     list_all2 (\<lambda>job seg. \<exists>ts tt. seg = [travel_entry job ts tt, job_entry job (due_slot job)] \<and>
                  15 \<le> tt \<and> tt \<le> 60 \<and> subtractMinutes (due_slot job) tt = Some ts)
       (filter (\<lambda>j. truthy (j_id j)) js) segs \<and>
     currentLocation st' \<noteq> None \<and> drawn st' = drawn st + 4 * length segs \<and>
     (currentTime st' = currentTime st \<or> (\<exists>T<1440. currentTime st' = hhmm_of_minutes T))"
  using assms
proof (induction js arbitrary: st)
  case Nil
  have "forEach_job rnd [] st = Inr st \<and> schedule st = schedule st @ concat [] \<and>
      list_all2 (\<lambda>job seg. \<exists>ts tt. seg = [travel_entry job ts tt, job_entry job (due_slot job)] \<and>
                  15 \<le> tt \<and> tt \<le> 60 \<and> subtractMinutes (due_slot job) tt = Some ts)
        (filter (\<lambda>j. truthy (j_id j)) []) [] \<and>
      currentLocation st \<noteq> None \<and> drawn st = drawn st + 4 * length ([] :: ScheduleEntry list list) \<and>
      (currentTime st = currentTime st \<or> (\<exists>T<1440. currentTime st = hhmm_of_minutes T))"
    using Nil.prems by simp
  then show ?case by blast
next
  case (Cons j js)
  let ?R = "\<lambda>job seg. \<exists>ts tt. seg = [travel_entry job ts tt, job_entry job (due_slot job)] \<and>
                  15 \<le> tt \<and> tt \<le> 60 \<and> subtractMinutes (due_slot job) tt = Some ts"
  from Cons.prems have valid_js: "\<forall>j\<in>set js. has_valid_dueDate j" by simp
  show ?case
  proof (cases "truthy (j_id j)")
    case False
    then have step: "forEach_job rnd (j # js) st = forEach_job rnd js st"
      by (simp add: job_body_skip)
    from Cons.IH [OF Cons.prems(1) valid_js] False show ?thesis
      unfolding step by simp
  next
    case True
    from Cons.prems obtain t where t: "j_dueDate j = Some (ValidDate t)"
      by (auto simp: has_valid_dueDate_def split: option.splits Date.splits)
    from Cons.prems obtain "from" where frm: "currentLocation st = Some from" by auto
    define h where "h = d_hours t mod 24"
    define m where "m = d_minutes t mod 60"
    have hm: "h < 24" "m < 60" by (simp_all add: h_def m_def)
    define tt where "tt = estimateTravelTime from (jitter rnd (drawn st))"
    define ts where "ts = hhmm_of_minutes (h * 60 + m - nat tt)"
    define T where "T = (h * 60 + m +
        nat (getJobDuration (Some (or_default (j_category j) ''Other'')))) mod 1440"
    have T: "T < 1440" by (simp add: T_def)
    define st1 where "st1 =
      \<lparr>schedule = schedule st @ [travel_entry j ts tt, job_entry j (due_slot j)],
       currentTime = hhmm_of_minutes T,
       currentLocation = Some (jitter rnd (drawn st + 2)),
       drawn = drawn st + 4\<rparr>"
    have body: "job_body rnd j st = Inr st1"
      unfolding st1_def ts_def tt_def T_def due_slot_valid [OF t] h_def m_def
      by (rule job_body_ok [OF True t frm])
    have tt: "15 \<le> tt" "tt \<le> 60"
      by (simp_all add: tt_def estimateTravelTime_bounds)
    have sub: "subtractMinutes (due_slot j) tt = Some ts"
    proof -
      from tt have "tt = int (nat tt)" by simp
      then have "subtractMinutes (hhmm h m) tt = subtractMinutes (hhmm h m) (int (nat tt))"
        by simp
      then show ?thesis
        by (simp only: due_slot_valid [OF t] subtractMinutes_hhmm [OF hm] ts_def
            flip: h_def m_def)
    qed
    have R: "?R j [travel_entry j ts tt, job_entry j (due_slot j)]"
      using tt sub by blast
    have loc1: "currentLocation st1 \<noteq> None" by (simp add: st1_def)
    from Cons.IH [OF loc1 valid_js] obtain st' segs where
      run: "forEach_job rnd js st1 = Inr st'" and
      sch: "schedule st' = schedule st1 @ concat segs" and
      all: "list_all2 ?R (filter (\<lambda>j. truthy (j_id j)) js) segs" and
      loc: "currentLocation st' \<noteq> None" and
      drw: "drawn st' = drawn st1 + 4 * length segs" and
      tim: "currentTime st' = currentTime st1 \<or> (\<exists>T<1440. currentTime st' = hhmm_of_minutes T)"
      by blast
    let ?segs = "[travel_entry j ts tt, job_entry j (due_slot j)] # segs"
    have 1: "forEach_job rnd (j # js) st = Inr st'" by (simp add: body run)
    have 2: "schedule st' = schedule st @ concat ?segs" by (simp add: sch st1_def)
    have 3: "list_all2 ?R (filter (\<lambda>j. truthy (j_id j)) (j # js)) ?segs"
      using True R all by simp
    have 4: "drawn st' = drawn st + 4 * length ?segs" by (simp add: drw st1_def)
    have 5: "\<exists>T<1440. currentTime st' = hhmm_of_minutes T"
      using tim T by (auto simp: st1_def)
    from 1 2 3 4 5 loc show ?thesis by blast
  qed
qed


lemma baseLocationData_coords:
  "valid_staff s \<Longrightarrow> base_coordinates (baseLocationData s) \<noteq> None"
  by (simp add: valid_staff_def baseLocationData_def BASE_LOCATIONS_def Let_def)

lemma shiftEnd_hhmm: "shiftEnd s d = hhmm 17 0 \<or> shiftEnd s d = hhmm 19 0"
  by (simp add: shiftEnd_def flip: hhmm_lits)

lemma compareTime_shiftEnd:
  "h < 24 \<Longrightarrow> m < 60 \<Longrightarrow> \<exists>c. compareTime (hhmm h m) (shiftEnd s d) = Some c"
  using shiftEnd_hhmm [of s d] by (auto simp: compareTime_hhmm)

lemma compareTime_refl_shiftEnd: "compareTime (shiftEnd s d) (shiftEnd s d) = Some 0"
  using shiftEnd_hhmm [of s d] by (auto simp: compareTime_hhmm)

lemma generateDaySchedule_shape:
  assumes "valid_staff s"
  shows "\<exists>st' segs c.
     forEach_job rnd (sortedJobs jobs s d) (loop_start s n) = Inr st' \<and>
     compareTime (currentTime st') (shiftEnd s d) = Some c \<and>
     generateDaySchedule rnd n jobs (Some s) (Some d) =
       (Inr (base_entry s # concat segs @
             [end_entry (if 0 < c then currentTime st' else shiftEnd s d) (isLateShift s d)]),
        n + 4 * length segs) \<and>
     list_all2 (\<lambda>job seg. \<exists>ts tt. seg = [travel_entry job ts tt, job_entry job (due_slot job)] \<and>
                  15 \<le> tt \<and> tt \<le> 60 \<and> subtractMinutes (due_slot job) tt = Some ts)
       (filter (\<lambda>j. truthy (j_id j)) (sortedJobs jobs s d)) segs"
proof -
  let ?R = "\<lambda>job seg. \<exists>ts tt. seg = [travel_entry job ts tt, job_entry job (due_slot job)] \<and>
                  15 \<le> tt \<and> tt \<le> 60 \<and> subtractMinutes (due_slot job) tt = Some ts"
  let ?js = "sortedJobs jobs s d"
  have loc0: "currentLocation (loop_start s n) \<noteq> None"
    using baseLocationData_coords [OF assms] by (simp add: loop_start_def)
  have valid: "\<forall>j\<in>set ?js. has_valid_dueDate j"
    by (simp add: sortedJobs_valid)
  from forEach_job_shape [OF loc0 valid, of rnd] obtain st' segs where
    run: "forEach_job rnd ?js (loop_start s n) = Inr st'" and
    sch: "schedule st' = schedule (loop_start s n) @ concat segs" and
    all: "list_all2 ?R (filter (\<lambda>j. truthy (j_id j)) ?js) segs" and
    drw: "drawn st' = drawn (loop_start s n) + 4 * length segs" and
    tim: "currentTime st' = currentTime (loop_start s n) \<or> (\<exists>T<1440. currentTime st' = hhmm_of_minutes T)"
    by blast
  have "\<exists>h m. h < 24 \<and> m < 60 \<and> currentTime st' = hhmm h m"
  proof -
    from tim consider "currentTime st' = hhmm 5 0"
      | T where "T < 1440" "currentTime st' = hhmm_of_minutes T"
      by (auto simp: loop_start_def hhmm_lits(1))
    then show ?thesis
    proof cases
      case 1
      then show ?thesis by (intro exI [of _ 5] exI [of _ 0]) simp
    next
      case 2
      from 2(1) have "T div 60 < 24" by simp
      with 2(2) show ?thesis
        by (intro exI [of _ "T div 60"] exI [of _ "T mod 60"]) (simp add: hhmm_of_minutes_def)
    qed
  qed
  then obtain c where c: "compareTime (currentTime st') (shiftEnd s d) = Some c"
    using compareTime_shiftEnd by metis
  have last: "(if length ?js > 0 then currentTime st' else ''05:00'') = currentTime st'"
  proof (cases ?js)
    case Nil
    with run have "st' = loop_start s n" by simp
    then show ?thesis by (simp add: Nil loop_start_def)
  next
    case Cons
    then show ?thesis by simp
  qed
  from assms have id: "truthy (u_id s)" by (simp add: valid_staff_def)
  have gen: "generateDaySchedule rnd n jobs (Some s) (Some d) =
       (Inr (base_entry s # concat segs @
             [end_entry (if 0 < c then currentTime st' else shiftEnd s d) (isLateShift s d)]),
        n + 4 * length segs)"
    unfolding generateDaySchedule_def
    by (simp only: prod.case option.case id not_True_eq_False if_False Let_def run sum.case
        last c sch drw) (simp add: loop_start_def)
  from run c gen all show ?thesis by blast
qed

lemma segs_types:
  "list_all2 (\<lambda>job seg. \<exists>ts tt. seg = [travel_entry job ts tt, job_entry job (due_slot job)] \<and>
                  15 \<le> tt \<and> tt \<le> 60 \<and> subtractMinutes (due_slot job) tt = Some ts) js segs
   \<Longrightarrow> map type (concat segs) = concat (replicate (length js) [Travel, Job])"
proof (induction js arbitrary: segs)
  case Nil
  then show ?case by simp
next
  case (Cons j js)
  then obtain seg rest where "segs = seg # rest" by (auto simp: list_all2_Cons1)
  with Cons show ?case
    by (auto simp: travel_entry_def job_entry_def)
qed

lemma segs_travel_durations:
  "list_all2 (\<lambda>job seg. \<exists>ts tt. seg = [travel_entry job ts tt, job_entry job (due_slot job)] \<and>
                  15 \<le> tt \<and> tt \<le> 60 \<and> subtractMinutes (due_slot job) tt = Some ts) js segs
   \<Longrightarrow> e \<in> set (concat segs) \<Longrightarrow> type e = Travel
   \<Longrightarrow> \<exists>tt. estimatedDuration e = Some tt \<and> 15 \<le> tt \<and> tt \<le> 60"
proof (induction js arbitrary: segs)
  case Nil
  then show ?case by simp
next
  case (Cons j js)
  then obtain seg rest where "segs = seg # rest" by (auto simp: list_all2_Cons1)
  with Cons show ?case
    by (auto simp: travel_entry_def job_entry_def)
qed

lemma job_after_travel_pairs:
  "i < length (concat (replicate k [Travel, Job]) @ [End]) \<Longrightarrow>
   (concat (replicate k [Travel, Job]) @ [End]) ! i = Job \<Longrightarrow>
   0 < i \<and> (concat (replicate k [Travel, Job]) @ [End]) ! (i - 1) = Travel"
proof (induction k arbitrary: i)
  case 0
  then show ?case by simp
next
  case (Suc k)
  let ?ys = "concat (replicate k [Travel, Job]) @ [End]"
  have eq: "concat (replicate (Suc k) [Travel, Job]) @ [End] = Travel # Job # ?ys" by simp
  show ?case
  proof (cases "i < 2")
    case True
    then have "i = 0 \<or> i = 1" by auto
    with Suc.prems(2) show ?thesis unfolding eq by auto
  next
    case False
    define i' where "i' = i - 2"
    from False have i': "i = Suc (Suc i')" by (simp add: i'_def)
    from Suc.prems have "i' < length ?ys" "?ys ! i' = Job"
      unfolding eq i' by simp_all
    from Suc.IH [OF this] have "0 < i'" "?ys ! (i' - 1) = Travel" by simp_all
    then obtain m where m: "i' = Suc m" by (cases i') simp_all
    with \<open>?ys ! (i' - 1) = Travel\<close> have "?ys ! m = Travel" by simp
    then show ?thesis unfolding eq i' m by simp
  qed
qed

lemma job_after_travel:
  assumes "map type sched = Base # concat (replicate k [Travel, Job]) @ [End]"
    and "i < length sched" and "type (sched ! i) = Job"
  shows "0 < i \<and> type (sched ! (i - 1)) = Travel"
proof -
  let ?ys = "concat (replicate k [Travel, Job]) @ [End]"
  from assms(1) have len: "length sched = Suc (length ?ys)"
    by (metis length_map length_Cons)
  have nth: "\<And>n. n < length sched \<Longrightarrow> type (sched ! n) = (Base # ?ys) ! n"
    using assms(1) by (metis nth_map)
  from assms(2,3) nth have at: "(Base # ?ys) ! i = Job" by simp
  then obtain i' where i': "i = Suc i'" by (cases i) simp_all
  with at assms(2) len have "i' < length ?ys" "?ys ! i' = Job" by simp_all
  from job_after_travel_pairs [OF this] have "0 < i'" and tr: "?ys ! (i' - 1) = Travel" by simp_all
  then obtain i'' where i'': "i' = Suc i''" by (cases i') simp_all
  have "type (sched ! (i - 1)) = (Base # ?ys) ! (i - 1)"
    using assms(2) by (intro nth) simp
  with tr show ?thesis by (simp add: i' i'')
qed

lemma dayJobs_empty:
  "\<forall>j. Some j \<in> set jobs \<longrightarrow>
       \<not> (j_assignedTo j = u_id s \<and> (\<exists>dd. j_dueDate j = Some dd \<and> isSameDay dd d))
   \<Longrightarrow> dayJobs jobs s d = []"
proof -
  assume "\<forall>j. Some j \<in> set jobs \<longrightarrow>
       \<not> (j_assignedTo j = u_id s \<and> (\<exists>dd. j_dueDate j = Some dd \<and> isSameDay dd d))"
  then have "set (dayJobs jobs s d) = {}" unfolding set_dayJobs by blast
  then show ?thesis by simp
qed

lemma compareTime_start_shiftEnd:
  "compareTime ''05:00'' (shiftEnd s d) = Some (if isLateShift s d then - 840 else - 720)"
  by (simp add: shiftEnd_def hhmm_lits compareTime_hhmm)

lemma ignores_shiftStartTime:
  "generateDaySchedule rnd n jobs (Some (s\<lparr>u_shiftStartTime := x\<rparr>)) dd =
   generateDaySchedule rnd n jobs (Some s) dd"
proof -
  let ?s = "s\<lparr>u_shiftStartTime := x\<rparr>"
  have a: "u_id ?s = u_id s" by simp
  have b: "\<And>d. sortedJobs jobs ?s d = sortedJobs jobs s d"
    by (simp add: sortedJobs_def dayJobs_def)
  have c: "loop_start ?s n = loop_start s n"
    by (simp add: loop_start_def base_entry_def baseLocationData_def)
  have d: "\<And>d. isLateShift ?s d = isLateShift s d" by (simp add: isLateShift_def)
  have e: "\<And>d. shiftEnd ?s d = shiftEnd s d" by (simp add: shiftEnd_def d)
  show ?thesis
    by (cases dd)
       (simp_all add: generateDaySchedule_def a b c d e
          cong: sum.case_cong option.case_cong prod.case_cong if_cong)
qed

lemma filter_ids_sortedJobs:
  assumes "\<forall>j. Some j \<in> set jobs \<longrightarrow> truthy (j_id j)"
  shows "filter (\<lambda>j. truthy (j_id j)) (sortedJobs jobs s d) = sortedJobs jobs s d"
proof -
  have "set (sortedJobs jobs s d) = set (dayJobs jobs s d)"
    by (rule set_sortedJobs)
  with assms have "\<forall>j\<in>set (sortedJobs jobs s d). truthy (j_id j)"
    by (simp add: set_dayJobs)
  then show ?thesis by simp
qed

lemma count_types:
  "length (filter (\<lambda>t. t = Travel) (concat (replicate k [Travel, Job]))) = k"
  "length (filter (\<lambda>t. t = Job) (concat (replicate k [Travel, Job]))) = k"
  by (induction k) simp_all

lemma count_entries:
  assumes "map type sched = Base # concat (replicate k [Travel, Job]) @ [End]"
  shows "length (filter (\<lambda>e. type e = Travel) sched) = k"
    and "length (filter (\<lambda>e. type e = Job) sched) = k"
proof -
  have "\<And>T. length (filter (\<lambda>e. type e = T) sched) = length (filter (\<lambda>t. t = T) (map type sched))"
    by (simp add: filter_map o_def)
  then show "length (filter (\<lambda>e. type e = Travel) sched) = k"
    and "length (filter (\<lambda>e. type e = Job) sched) = k"
    by (simp_all add: assms count_types)
qed

section \<open>The end-to-end example\<close>

lemma estimateTravelTime_far:
  assumes "lat a \<le> - 33" and "- 27 \<le> lat b"
  shows "estimateTravelTime a b = 60"
proof -
  define d where "d = lat b - lat a"
  define dl where "dl = fl d"
  define p where "p = dl * dl"
  define s1 where "s1 = fl p"
  define s2 where "s2 = fl (fl (lng b - lng a) * fl (lng b - lng a))"
  define q where "q = fl (s1 + s2)"
  define sq where "sq = sqrt q"
  define r where "r = fl sq"
  define t where "t = fl (r * 3000)"
  from assms have d: "6 \<le> d" by (simp add: d_def)
  from fl_ge [OF d] have dl: "5 \<le> dl" unfolding dl_def by simp
  then have "5 * 5 \<le> dl * dl" by (intro mult_mono) simp_all
  then have p: "25 \<le> p" by (simp add: p_def)
  from fl_ge [OF p] have s1: "24 \<le> s1" unfolding s1_def by simp
  have s2: "0 \<le> s2" unfolding s2_def by (rule fl_nonneg) simp
  from s1 s2 have "24 \<le> s1 + s2" by simp
  from fl_ge [OF this] have q: "16 \<le> q" unfolding q_def by simp
  then have "sqrt 16 \<le> sqrt q" by (simp only: real_sqrt_le_iff)
  moreover have "sqrt 16 = (4::real)" using real_sqrt_abs [of 4] by simp
  ultimately have sq: "4 \<le> sq" by (simp add: sq_def)
  from fl_ge [OF sq] have r: "3 \<le> r" unfolding r_def by simp
  then have "9000 \<le> r * 3000" by simp
  from fl_ge [OF this] have t: "61 \<le> t" unfolding t_def by simp
  then have "round (61::real) \<le> round t" by (rule round_mono)
  then have "61 \<le> round t" by simp
  then show ?thesis
    by (simp add: estimateTravelTime_def Math_pow_2_def Math_sqrt_def Let_def
        flip: d_def dl_def p_def s1_def s2_def q_def sq_def r_def t_def)
qed

lemma jitter_lat_half: "rnd k = 1 / 2 \<Longrightarrow> - 27 \<le> lat (jitter rnd k)"
proof -
  assume rnd: "rnd k = 1 / 2"
  define a where "a = fl (- 26.2041)"
  define b where "b = fl 0.1"
  define c where "c = fl (1 / 2 * b)"
  from fl_neg_bounds [of "- 26.2041"] have a: "- 26.3 \<le> a" "a \<le> - 26.1"
    unfolding a_def by simp_all
  from fl_pos_bounds [of "0.1"] have b: "0.09 \<le> b" "b \<le> 0.11"
    unfolding b_def by simp_all
  from b have "1 / 1000 \<le> 1 / 2 * b" by simp
  from fl_pos_bounds [OF this] b have c: "0 \<le> c" "c \<le> 0.06"
    unfolding c_def by simp_all
  define s where "s = a + c"
  from a c have s: "- 26.3 \<le> s" "s \<le> - (1 / 1000)" by (simp_all add: s_def)
  from fl_neg_bounds(1) [OF s(2)] s(1) have "- 27 \<le> fl s"
    by linarith
  then show ?thesis by (simp add: jitter_def rnd a_def b_def c_def s_def)
qed

lemma base_lat: "fl (- 33.8903) \<le> - 33"
  using fl_neg_bounds(2) [of "- 33.8903"] by simp


lemma ex_valid_staff: "valid_staff ex_staff"
  by (simp add: valid_staff_def ex_staff_def truthy_def or_default_def object_prototype_keys_def)

lemma ex_sortedJobs: "sortedJobs [Some ex_job] ex_staff ex_day = [ex_job]"
  by (simp add: sortedJobs_def dayJobs_def Array_sort_def ex_job_def ex_staff_def ex_day_def
      isSameDay_def)

lemma ex_not_late: "\<not> isLateShift ex_staff ex_day"
  by (simp add: isLateShift_def ex_staff_def ex_day_def isLateShiftWeek_def
      differenceInMinutes_2024_def js_rem_def Let_def)

lemma ex_late_week: "isLateShiftWeek ex_late_day"
  by (simp add: ex_late_day_def isLateShiftWeek_def differenceInMinutes_2024_def js_rem_def Let_def)

lemma ex_travel:
  assumes "currentLocation (loop_start ex_staff 0) = Some from"
  shows "estimateTravelTime from (jitter ex_rnd 0) = 60"
proof -
  from assms have l: "lat from = fl (- 33.8903)"
    by (auto simp: loop_start_def baseLocationData_def BASE_LOCATIONS_def ex_staff_def or_default_def)
  have "lat from \<le> - 33" unfolding l by (rule base_lat)
  moreover have "- 27 \<le> lat (jitter ex_rnd 0)"
    by (rule jitter_lat_half) (simp add: ex_rnd_def)
  ultimately show ?thesis by (rule estimateTravelTime_far)
qed

lemma example_day_schedule:
  "generateDaySchedule ex_rnd 0 [Some ex_job] (Some ex_staff) (Some ex_day) =
     (Inr [base_entry ex_staff, travel_entry ex_job ''07:00'' 60, job_entry ex_job ''08:00'',
           end_entry ''17:00'' False], 4)"
proof -
  obtain "from" where loc: "currentLocation (loop_start ex_staff 0) = Some from"
    using baseLocationData_coords [OF ex_valid_staff] by (auto simp: loop_start_def)
  have id: "truthy (j_id ex_job)" by (simp add: ex_job_def truthy_def)
  have due: "j_dueDate ex_job = Some (ValidDate \<lparr>d_year = 2024, d_month = 1, d_day = 2, d_hours = 8,
      d_minutes = 0, getTime = jan1_2024 + 86400000 + 8 * 3600000\<rparr>)"
    by (simp add: ex_job_def)
  have dur: "getJobDuration (Some (or_default (j_category ex_job) ''Other'')) = 120"
    by (simp add: ex_job_def or_default_def getJobDuration_def)
  have t1: "hhmm_of_minutes 420 = ''07:00''" by code_simp
  have t2: "hhmm 8 0 = ''08:00''" by code_simp
  have t3: "hhmm_of_minutes 600 = ''10:00''" by code_simp
  have hm: "d_hours \<lparr>d_year = 2024, d_month = 1, d_day = 2, d_hours = 8,
      d_minutes = 0, getTime = jan1_2024 + 86400000 + 8 * 3600000\<rparr> mod 24 = 8"
    "d_minutes \<lparr>d_year = 2024, d_month = 1, d_day = 2, d_hours = 8,
      d_minutes = 0, getTime = jan1_2024 + 86400000 + 8 * 3600000\<rparr> mod 60 = 0"
    by simp_all
  have body: "job_body ex_rnd ex_job (loop_start ex_staff 0) =
      Inr \<lparr>schedule = [base_entry ex_staff, travel_entry ex_job ''07:00'' 60, job_entry ex_job ''08:00''],
           currentTime = ''10:00'', currentLocation = Some (jitter ex_rnd 2), drawn = 4\<rparr>"
    using job_body_ok [OF id due loc, of ex_rnd, unfolded hm]
    by (simp add: loop_start_def ex_travel [OF loc] dur t1 t2 t3 numeral_2_eq_2)
  have cmp: "compareTime ''10:00'' ''17:00'' = Some (- 420)" by code_simp
  have id': "truthy (u_id ex_staff)" by (simp add: ex_staff_def truthy_def)
  show ?thesis
    using ex_not_late
    by (simp add: generateDaySchedule_def id' ex_sortedJobs body shiftEnd_def cmp)
qed

section \<open>The week aggregator\<close>

lemma generateDaySchedule_missing:
  "generateDaySchedule rnd n jobs None date = (Inr [], n)"
  "generateDaySchedule rnd n jobs staffMember None = (Inr [], n)"
  "\<not> truthy (u_id s) \<Longrightarrow> generateDaySchedule rnd n jobs (Some s) date = (Inr [], n)"
  by (simp_all add: generateDaySchedule_def split: option.splits)

lemma forEach_job_skip:
  "\<not> truthy (j_id job) \<Longrightarrow> forEach_job rnd (job # js) st = forEach_job rnd js st"
  by (simp add: job_body_skip)

lemma day_cell_valid:
  "\<exists>m' k'. day_cell rnd jobs s (Some (ValidDate t)) (m, k) = Inr (m', k') \<and>
     k' = snd (generateDaySchedule rnd k jobs (Some s) (Some (ValidDate t))) \<and>
     m' = m(cell_key s t \<mapsto>
            (case fst (generateDaySchedule rnd k jobs (Some s) (Some (ValidDate t))) of
               Inr entries \<Rightarrow> entries | Inl e \<Rightarrow> []))"
  by (cases "generateDaySchedule rnd k jobs (Some s) (Some (ValidDate t))")
     (auto simp: day_cell_def format_yyyyMMdd_def cell_key_def Let_def split: sum.splits)

lemma day_cell_ok:
  "d \<noteq> Some InvalidDate \<Longrightarrow> \<exists>acc'. day_cell rnd jobs s d acc = Inr acc'"
proof (cases d)
  case None
  then show ?thesis by (simp add: day_cell_def)
next
  case (Some dd)
  assume "d \<noteq> Some InvalidDate"
  with Some obtain t where "dd = ValidDate t" by (cases dd) auto
  with Some day_cell_valid [of rnd jobs s t "fst acc" "snd acc"] show ?thesis by auto
qed

lemma forEach_day_ok:
  "\<forall>d\<in>set days. d \<noteq> Some InvalidDate \<Longrightarrow> \<exists>acc'. forEach_day rnd jobs s days acc = Inr acc'"
proof (induction days arbitrary: acc)
  case Nil
  show ?case by simp
next
  case (Cons d days)
  from Cons.prems have d: "d \<noteq> Some InvalidDate"
    and rest: "\<forall>d\<in>set days. d \<noteq> Some InvalidDate" by simp_all
  from day_cell_ok [OF d] obtain acc1 where 1: "day_cell rnd jobs s d acc = Inr acc1" by blast
  from Cons.IH [OF rest, of acc1] obtain acc' where 2: "forEach_day rnd jobs s days acc1 = Inr acc'"
    by blast
  from 1 2 have "forEach_day rnd jobs s (d # days) acc = Inr acc'" by simp
  then show ?case by blast
qed

lemma forEach_staff_ok:
  "\<forall>d\<in>set days. d \<noteq> Some InvalidDate \<Longrightarrow>
     \<exists>acc'. forEach_staff rnd jobs days members acc = Inr acc'"
proof (induction members arbitrary: acc)
  case Nil
  show ?case by simp
next
  case (Cons s members)
  show ?case
  proof (cases "truthy (u_id s)")
    case False
    from Cons.IH [OF Cons.prems, of acc] False show ?thesis by simp
  next
    case True
    from forEach_day_ok [OF Cons.prems] obtain acc1 where
      1: "forEach_day rnd jobs s days acc = Inr acc1" by blast
    from Cons.IH [OF Cons.prems, of acc1] obtain acc' where
      2: "forEach_staff rnd jobs days members acc1 = Inr acc'" by blast
    from 1 2 True have "forEach_staff rnd jobs days (s # members) acc = Inr acc'" by simp
    then show ?thesis by blast
  qed
qed

lemma generateSchedules_ok:
  assumes "\<forall>d\<in>set weekDays. d \<noteq> Some InvalidDate"
  shows "\<exists>m k. generateSchedules rnd n jobs staff weekDays = Inr (m, k)"
proof -
  from forEach_staff_ok [OF assms] obtain acc' where
    "generateSchedules rnd n jobs staff weekDays = Inr acc'"
    unfolding generateSchedules_def by blast
  then show ?thesis by (cases acc') simp
qed

lemma ex_builder_throws:
  "generateDaySchedule ex_rnd 0 [Some ex_job] (Some ex_proto_staff) (Some ex_day) = (Inl TypeError, 2)"
proof -
  have id: "truthy (u_id ex_proto_staff)" by (simp add: ex_proto_staff_def ex_staff_def truthy_def)
  have sorted: "sortedJobs [Some ex_job] ex_proto_staff ex_day = [ex_job]"
    by (simp add: sortedJobs_def dayJobs_def Array_sort_def ex_job_def ex_proto_staff_def
        ex_staff_def ex_day_def isSameDay_def)
  have loc: "currentLocation (loop_start ex_proto_staff 0) = None"
    by (simp add: loop_start_def baseLocationData_def BASE_LOCATIONS_def ex_proto_staff_def
        ex_staff_def or_default_def object_prototype_keys_def)
  have body: "job_body ex_rnd ex_job (loop_start ex_proto_staff 0) = Inl (TypeError, 2)"
    using loc by (simp add: job_body_def ex_job_def truthy_def format_HHmm_def loop_start_def)
  show ?thesis by (simp add: generateDaySchedule_def id sorted body)
qed

lemma ex_aggregator_catches:
  "generateSchedules ex_rnd 0 [Some ex_job] [Some ex_proto_staff] [Some ex_day] =
     Inr ([''s1-2024-01-02'' \<mapsto> []], 2)"
proof -
  define T where "T = \<lparr>d_year = 2024, d_month = 1, d_day = 2, d_hours = 0, d_minutes = 0,
      getTime = jan1_2024 + 86400000\<rparr>"
  have day: "ex_day = ValidDate T" by (simp add: ex_day_def T_def)
  have key: "cell_key ex_proto_staff T = ''s1-2024-01-02''"
    unfolding T_def by code_simp
  have throws: "generateDaySchedule ex_rnd 0 [Some ex_job] (Some ex_proto_staff) (Some (ValidDate T)) =
      (Inl TypeError, 2)"
    using ex_builder_throws by (simp only: day)
  have id: "truthy (u_id ex_proto_staff)" "u_role ex_proto_staff = ''staff''"
    by (simp_all add: ex_proto_staff_def ex_staff_def truthy_def)
  from day_cell_valid [of ex_rnd "[Some ex_job]" ex_proto_staff T Map.empty 0]
  have "day_cell ex_rnd [Some ex_job] ex_proto_staff (Some ex_day) (Map.empty, 0) =
      Inr ([''s1-2024-01-02'' \<mapsto> []], 2)"
    by (simp add: throws key day)
  then show ?thesis by (simp add: generateSchedules_def id)
qed

lemma forEach_day_dom:
  "\<forall>d\<in>set days. d \<noteq> Some InvalidDate \<Longrightarrow>
   forEach_day rnd jobs s days (m, k) = Inr (m', k') \<Longrightarrow>
   dom m' = dom m \<union> {cell_key s t |t. Some (ValidDate t) \<in> set days}"
proof (induction days arbitrary: m k)
  case Nil
  then show ?case by simp
next
  case (Cons d days)
  from Cons.prems(1) have d: "d \<noteq> Some InvalidDate"
    and rest: "\<forall>d\<in>set days. d \<noteq> Some InvalidDate" by simp_all
  show ?case
  proof (cases d)
    case None
    with Cons.prems(2) have "forEach_day rnd jobs s days (m, k) = Inr (m', k')"
      by (simp add: day_cell_def)
    from Cons.IH [OF rest this] None show ?thesis by auto
  next
    case (Some dd)
    with d obtain t where t: "d = Some (ValidDate t)" by (cases dd) auto
    from day_cell_valid [of rnd jobs s t m k] obtain m1 k1 where
      cell: "day_cell rnd jobs s (Some (ValidDate t)) (m, k) = Inr (m1, k1)" and
      dom1: "dom m1 = insert (cell_key s t) (dom m)"
      by auto
    from Cons.prems(2) cell t have "forEach_day rnd jobs s days (m1, k1) = Inr (m', k')"
      by simp
    from Cons.IH [OF rest this] dom1 t show ?thesis by auto
  qed
qed

lemma forEach_staff_dom:
  "\<forall>d\<in>set days. d \<noteq> Some InvalidDate \<Longrightarrow>
   forEach_staff rnd jobs days members (m, k) = Inr (m', k') \<Longrightarrow>
   dom m' = dom m \<union>
     {cell_key s t |s t. s \<in> set members \<and> truthy (u_id s) \<and> Some (ValidDate t) \<in> set days}"
proof (induction members arbitrary: m k)
  case Nil
  then show ?case by simp
next
  case (Cons s members)
  show ?case
  proof (cases "truthy (u_id s)")
    case False
    with Cons.prems(2) have "forEach_staff rnd jobs days members (m, k) = Inr (m', k')" by simp
    from Cons.IH [OF Cons.prems(1) this] False show ?thesis by auto
  next
    case True
    from forEach_day_ok [OF Cons.prems(1), of rnd jobs s "(m, k)"] obtain m1 k1 where
      1: "forEach_day rnd jobs s days (m, k) = Inr (m1, k1)" by (metis surj_pair)
    from Cons.prems(2) 1 True have 2: "forEach_staff rnd jobs days members (m1, k1) = Inr (m', k')"
      by simp
    from forEach_day_dom [OF Cons.prems(1) 1] Cons.IH [OF Cons.prems(1) 2] True
    show ?thesis by auto
  qed
qed

lemma generateSchedules_dom:
  assumes "\<forall>d\<in>set weekDays. d \<noteq> Some InvalidDate"
    and "generateSchedules rnd n jobs staff weekDays = Inr (m, k)"
  shows "dom m = {cell_key s t |s t. Some s \<in> set staff \<and> u_role s = ''staff'' \<and>
                    truthy (u_id s) \<and> Some (ValidDate t) \<in> set weekDays}"
  using forEach_staff_dom [OF assms(1) assms(2) [unfolded generateSchedules_def]]
  by (auto simp: set_Array_filter)

section \<open>The exceptions of the day builder\<close>

text \<open>
  The builder either returns a schedule or raises a \<open>TypeError\<close>, which happens when
  the base location has no coordinates and a job with an id is reached. It never raises a
  \<open>RangeError\<close>, the filter having removed the jobs whose due date is invalid, and the
  time strings it handles are always within the modelled fragment of \<open>Number\<close>.
\<close>

lemma job_body_no_location:
  assumes "truthy (j_id job)" and "has_valid_dueDate job" and "currentLocation st = None"
  shows "job_body rnd job st = Inl (TypeError, drawn st + 2)"
proof -
  from assms(2) obtain t where "j_dueDate job = Some (ValidDate t)"
    by (auto simp: has_valid_dueDate_def split: option.splits Date.splits)
  with assms(1,3) show ?thesis
    by (simp add: job_body_def format_HHmm_def)
qed

lemma forEach_job_no_location:
  "currentLocation st = None \<Longrightarrow> \<forall>j\<in>set js. has_valid_dueDate j \<Longrightarrow>
     forEach_job rnd js st = Inr st \<or> forEach_job rnd js st = Inl (TypeError, drawn st + 2)"
proof (induction js)
  case Nil
  show ?case by simp
next
  case (Cons j js)
  show ?case
  proof (cases "truthy (j_id j)")
    case False
    with Cons show ?thesis by (simp add: job_body_skip)
  next
    case True
    from Cons.prems have "has_valid_dueDate j" by simp
    from job_body_no_location [OF True this Cons.prems(1), of rnd] show ?thesis by simp
  qed
qed

lemma baseLocationData_prototype:
  "truthy (u_id s) \<Longrightarrow> \<not> valid_staff s \<Longrightarrow> base_coordinates (baseLocationData s) = None"
  by (auto simp: valid_staff_def baseLocationData_def BASE_LOCATIONS_def Let_def
      object_prototype_keys_def)

lemma generateDaySchedule_errors:
  "(\<exists>entries. fst (generateDaySchedule rnd n jobs staffMember date) = Inr entries) \<or>
   fst (generateDaySchedule rnd n jobs staffMember date) = Inl TypeError"
proof (cases staffMember)
  case None
  then show ?thesis by (simp add: generateDaySchedule_missing)
next
  case (Some s)
  show ?thesis
  proof (cases date)
    case None
    then show ?thesis by (simp add: generateDaySchedule_missing)
  next
    case d: (Some d)
    show ?thesis
    proof (cases "truthy (u_id s)")
      case False
      with Some show ?thesis by (simp add: generateDaySchedule_missing)
    next
      case True
      show ?thesis
      proof (cases "valid_staff s")
        case valid: True
        from generateDaySchedule_shape [OF valid, of rnd jobs d n] Some d show ?thesis by auto
      next
        case False
        with True have loc: "currentLocation (loop_start s n) = None"
          by (simp add: loop_start_def baseLocationData_prototype)
        have valid: "\<forall>j\<in>set (sortedJobs jobs s d). has_valid_dueDate j"
          by (simp add: sortedJobs_valid)
        from forEach_job_no_location [OF loc valid, of rnd]
        show ?thesis
        proof
          assume run: "forEach_job rnd (sortedJobs jobs s d) (loop_start s n) = Inr (loop_start s n)"
          have "(if 0 < length (sortedJobs jobs s d) then currentTime (loop_start s n) else ''05:00'') = ''05:00''"
            by (simp add: loop_start_def)
          with run True show ?thesis
            unfolding Some d generateDaySchedule_def
            by (simp add: Let_def compareTime_start_shiftEnd)
        next
          assume "forEach_job rnd (sortedJobs jobs s d) (loop_start s n) =
            Inl (TypeError, drawn (loop_start s n) + 2)"
          with True show ?thesis
            unfolding Some d generateDaySchedule_def by (simp add: Let_def)
        qed
      qed
    qed
  qed
qed

section \<open>The rows and lines of the CSV text\<close>

lemma newline_digits: "newline \<notin> set (digits_of n)"
  using digits_of_subset [of n] by (auto simp: newline_def)

lemma newline_padStart: "newline \<notin> set (padStart k CHR ''0'' (digits_of n))"
  using newline_digits [of n] by (auto simp: padStart_def newline_def)

lemma newline_toString_int: "newline \<notin> set (toString_int i)"
  using newline_digits by (auto simp: toString_int_def newline_def)

lemma newline_yyyyMMdd: "newline \<notin> set (yyyyMMdd t)"
  using newline_padStart by (auto simp: yyyyMMdd_def newline_def)

lemma newline_type_string: "newline \<notin> set (type_string ty)"
  by (cases ty) (simp_all add: type_string_def newline_def)

lemma newline_csv_header: "newline \<notin> set csv_header"
  by (simp add: csv_header_def newline_def)

lemma csv_row_fields:
  "csv_row ds e =
     ds @ '','' @ time e @ '','' @ type_string (type e) @ '','' @
     quoted (template (location e)) @ '','' @ quoted (description e) @ '','' @
     toString_int (case estimatedDuration e of None \<Rightarrow> 0 | Some t \<Rightarrow> t)"
  by (simp add: csv_row_def)

lemma newline_csv_row:
  assumes "newline \<notin> set (time e)" and "newline \<notin> set (template (location e))"
    and "newline \<notin> set (description e)"
  shows "newline \<notin> set (csv_row (yyyyMMdd t) e)"
  using assms newline_yyyyMMdd [of t] newline_type_string [of "type e"]
    newline_toString_int [of "case estimatedDuration e of None \<Rightarrow> 0 | Some t \<Rightarrow> t"]
  unfolding csv_row_fields quoted_def by (auto simp: newline_def)

lemma split_on_join:
  "rows \<noteq> [] \<Longrightarrow> \<forall>r\<in>set rows. sep \<notin> set r \<Longrightarrow> split_on sep (join [sep] rows) = rows"
proof (induction "[sep]" rows rule: join.induct)
  case 1
  then show ?case by simp
next
  case (2 x)
  then show ?case by (simp add: split_on_no_sep)
next
  case (3 x y ys)
  then have x: "sep \<notin> set x" and ih: "split_on sep (join [sep] (y # ys)) = y # ys" by simp_all
  have "join [sep] (x # y # ys) = x @ sep # join [sep] (y # ys)" by simp
  then show ?case using split_on_append [OF x, of "join [sep] (y # ys)"] ih by simp
qed

lemma export_rows_valid:
  "export_rows schedules staffId (map (\<lambda>t. Some (ValidDate t)) ts) =
     Inr (week_rows schedules staffId ts)"
  by (induction ts) (simp_all add: week_rows_def format_yyyyMMdd_def)

lemma length_week_rows: "length (week_rows schedules staffId ts) = week_entries schedules staffId ts"
  by (induction ts) (simp_all add: week_rows_def week_entries_def)

lemma newline_week_rows:
  assumes "\<forall>t\<in>set ts. \<forall>e\<in>set (daySchedule schedules staffId (yyyyMMdd t)).
      newline \<notin> set (time e) \<and> newline \<notin> set (template (location e)) \<and>
      newline \<notin> set (description e)"
  shows "\<forall>r\<in>set (week_rows schedules staffId ts). newline \<notin> set r"
proof
  fix r assume "r \<in> set (week_rows schedules staffId ts)"
  then obtain t e where t: "t \<in> set ts"
    and e: "e \<in> set (daySchedule schedules staffId (yyyyMMdd t))"
    and r: "r = csv_row (yyyyMMdd t) e"
    by (auto simp: week_rows_def)
  from assms t e have "newline \<notin> set (time e)" "newline \<notin> set (template (location e))"
    "newline \<notin> set (description e)" by blast+
  then show "newline \<notin> set r" unfolding r by (rule newline_csv_row)
qed

lemma exportScheduleCSV_valid:
  assumes "find_staff staff staffId = Some staffMember"
  shows "exportScheduleCSV staff schedules (map (\<lambda>t. Some (ValidDate t)) ts) (Some (ValidDate w))
      staffId =
    Inr (Some (template (u_name staffMember) @ ''_schedule_'' @ yyyyMMdd w @ ''.csv'',
               join [newline] (csv_header # week_rows schedules staffId ts)))"
  by (simp add: exportScheduleCSV_def assms export_rows_valid format_yyyyMMdd_def newline_def)

lemma ex_day_date: "ex_day = ValidDate ex_date"
  by (simp add: ex_day_def ex_date_def)

lemma ex_date_string: "yyyyMMdd ex_date = ''2024-01-02''"
  by code_simp

lemma ex_find_staff: "find_staff [Some ex_staff] ''s1'' = Some ex_staff"
  by (simp add: ex_staff_def)

lemma ex_fields_no_newline:
  "\<forall>t\<in>set [ex_date]. \<forall>e\<in>set (daySchedule ex_schedules ''s1'' (yyyyMMdd t)).
      newline \<notin> set (time e) \<and> newline \<notin> set (template (location e)) \<and>
      newline \<notin> set (description e)"
  by (simp add: ex_date_string daySchedule_def ex_schedules_def base_entry_def travel_entry_def
      job_entry_def end_entry_def baseLocationData_def BASE_LOCATIONS_def ex_staff_def ex_job_def
      jobLocation_def or_default_def truthy_def template_def newline_def newline_toString_int [unfolded newline_def])

section \<open>The shape of a day schedule\<close>

text \<open>
  For a valid staff member and a job list whose jobs all have an id, the schedule is the
  base entry at \<open>05:00\<close> with the address and coordinates of the resolved base
  location, then for each job of \<open>sortedJobs\<close>, in the order of that list, a travel entry
  followed at once by the job's entry at its due slot, then one end entry. The jobs of
  \<open>sortedJobs\<close> are those assigned to the staff member and due on the day. Changing
  \<open>shiftStartTime\<close> changes nothing. When \<open>new Date\<close> agrees with \<open>parseISO\<close> on every
  job, \<open>sortedJobs\<close> is in ascending order of due time.
\<close>

lemma day_schedule_built:
  assumes v: "valid_staff s" and ids: "\<forall>j. Some j \<in> set jobs \<longrightarrow> truthy (j_id j)"
  shows "\<exists>segs endTime k.
     generateDaySchedule rnd n jobs (Some s) (Some d) =
       (Inr (base_entry s # concat segs @ [end_entry endTime (isLateShift s d)]), k) \<and>
     list_all2 (\<lambda>job seg. \<exists>ts tt. seg = [travel_entry job ts tt, job_entry job (due_slot job)])
       (sortedJobs jobs s d) segs \<and>
     type (base_entry s) = Base \<and> time (base_entry s) = ''05:00'' \<and>
     location (base_entry s) = address (baseLocationData s) \<and>
     coordinates (base_entry s) = base_coordinates (baseLocationData s) \<and>
     set (sortedJobs jobs s d) =
       {j. Some j \<in> set jobs \<and> j_assignedTo j = u_id s \<and>
           (\<exists>dd. j_dueDate j = Some dd \<and> isSameDay dd d)} \<and>
     mset (sortedJobs jobs s d) = mset (dayJobs jobs s d) \<and>
     (\<forall>j\<in>set (sortedJobs jobs s d). has_valid_dueDate j) \<and>
     ((\<forall>j. Some j \<in> set jobs \<longrightarrow> parsers_agree j) \<longrightarrow>
        sorted (map due_ms (sortedJobs jobs s d))) \<and>
     (\<forall>x. generateDaySchedule rnd n jobs (Some (s\<lparr>u_shiftStartTime := x\<rparr>)) (Some d) =
          generateDaySchedule rnd n jobs (Some s) (Some d))"
proof -
  let ?R = "\<lambda>job seg. \<exists>ts tt. seg = [travel_entry job ts tt, job_entry job (due_slot job)] \<and>
                  15 \<le> tt \<and> tt \<le> 60 \<and> subtractMinutes (due_slot job) tt = Some ts"
  let ?Q = "\<lambda>job seg. \<exists>ts tt. seg = [travel_entry job ts tt, job_entry job (due_slot job)]"
  from generateDaySchedule_shape [OF v, of rnd jobs d n] obtain st' segs c where
    "forEach_job rnd (sortedJobs jobs s d) (loop_start s n) = Inr st'" and
    "compareTime (currentTime st') (shiftEnd s d) = Some c" and
    gen: "generateDaySchedule rnd n jobs (Some s) (Some d) =
       (Inr (base_entry s # concat segs @
             [end_entry (if 0 < c then currentTime st' else shiftEnd s d) (isLateShift s d)]),
        n + 4 * length segs)" and
    all: "list_all2 ?R (filter (\<lambda>j. truthy (j_id j)) (sortedJobs jobs s d)) segs"
    by (elim exE conjE)
  from all have "list_all2 ?R (sortedJobs jobs s d) segs"
    by (simp only: filter_ids_sortedJobs [OF ids])
  then have shape: "list_all2 ?Q (sortedJobs jobs s d) segs"
    by (rule list_all2_mono) blast
  have base: "type (base_entry s) = Base \<and> time (base_entry s) = ''05:00'' \<and>
     location (base_entry s) = address (baseLocationData s) \<and>
     coordinates (base_entry s) = base_coordinates (baseLocationData s)"
    by (simp add: base_entry_def)
  have sel: "set (sortedJobs jobs s d) =
       {j. Some j \<in> set jobs \<and> j_assignedTo j = u_id s \<and>
           (\<exists>dd. j_dueDate j = Some dd \<and> isSameDay dd d)}"
    by (simp add: set_sortedJobs set_dayJobs)
  have valid: "\<forall>j\<in>set (sortedJobs jobs s d). has_valid_dueDate j"
    by (simp add: sortedJobs_valid)
  have ord: "(\<forall>j. Some j \<in> set jobs \<longrightarrow> parsers_agree j) \<longrightarrow>
        sorted (map due_ms (sortedJobs jobs s d))"
    using sortedJobs_sorted [of jobs s d] by blast
  have ign: "\<forall>x. generateDaySchedule rnd n jobs (Some (s\<lparr>u_shiftStartTime := x\<rparr>)) (Some d) =
          generateDaySchedule rnd n jobs (Some s) (Some d)"
    by (simp add: ignores_shiftStartTime)
  from gen shape base sel valid sortedJobs_mset [of jobs s d] ord ign
  show ?thesis by blast
qed

section \<open>Properties of the helpers\<close>

text \<open>
  C2, as the code has it. For all coordinates, \<open>estimateTravelTime\<close> is
  \<open>Math.round\<close> of the distance in degree space times 3000 as double arithmetic
  computes it, every operation rounded to the nearest double, clamped to the interval
  from 15 to 60; the result is an integer between 15 and 60.
\<close>

theorem estimateTravelTime_clamped:
  "estimateTravelTime from to =
     clamp (round (fl (Math_sqrt (fl (Math_pow_2 (fl (lat to - lat from)) +
                                      Math_pow_2 (fl (lng to - lng from)))) * 3000))) 15 60
   \<and> 15 \<le> estimateTravelTime from to \<and> estimateTravelTime from to \<le> 60"
  by (simp add: estimateTravelTime_def clamp_def Let_def max_def min_def)

text \<open>
  The claim as stated, with the exact real distance, fails. The double nearest to 0.0065
  is \<open>7493989779944505 / 2^60\<close>, a little below 0.0065. From the origin to the point
  with this latitude, the exact distance times 3000 is a little below 19.5 and rounds to
  19; in double arithmetic the product is rounded to 19.5 and \<open>Math.round\<close> gives 20.
\<close>

theorem estimateTravelTime_rounding_counterexample:
  "estimateTravelTime \<lparr>lat = 0, lng = 0\<rparr> \<lparr>lat = 7493989779944505 / 2 ^ 60, lng = 0\<rparr> = 20 \<and>
   clamp (round (sqrt ((7493989779944505 / 2 ^ 60 - 0) ^ 2 + (0 - 0) ^ 2) * 3000 :: real)) 15 60
     = 19 \<and>
   fl 0.0065 = 7493989779944505 / 2 ^ 60"
proof -
  define x0 :: real where "x0 = 7493989779944505 / 2 ^ 60"
  define y0 :: real where "y0 = 1558749874228457 / 2 ^ 65"
  have c1: "fl x0 = x0"
    unfolding x0_def
    using fl_eq [of "- 8" "7493989779944505 / 2 ^ 60" 7493989779944505] by simp
  have c2: "fl (x0 * x0) = y0"
    unfolding x0_def y0_def
    using fl_eq [of "- 15" "7493989779944505 / 2 ^ 60 * (7493989779944505 / 2 ^ 60)"
        6234999496913828]
    by simp
  have c3: "fl y0 = y0"
    unfolding y0_def
    using fl_eq [of "- 15" "1558749874228457 / 2 ^ 65" 6234999496913828] by simp
  have c4: "fl (sqrt y0) = x0"
  proof -
    have lo: "(7493989779944505 - 1 / 2) / 2 ^ 60 < sqrt y0"
      unfolding y0_def by (rule real_less_rsqrt) (simp add: power2_eq_square)
    have hi: "sqrt y0 < (7493989779944505 + 1 / 2) / 2 ^ 60"
      unfolding y0_def by (rule real_less_lsqrt) (simp_all add: power2_eq_square)
    have pos: "0 < sqrt y0" by (simp add: y0_def)
    from lo hi pos show ?thesis
      unfolding x0_def
      using fl_eq [of "- 8" "sqrt y0" 7493989779944505] by (simp add: abs_if)
  qed
  have c5: "fl (x0 * 3000) = 39 / 2"
    unfolding x0_def
    using fl_eq [of 4 "7493989779944505 / 2 ^ 60 * 3000" "39 * 2 ^ 47"] by simp
  have code: "estimateTravelTime \<lparr>lat = 0, lng = 0\<rparr> \<lparr>lat = x0, lng = 0\<rparr> = 20"
    by (simp add: estimateTravelTime_def Math_pow_2_def Math_sqrt_def fl_0 c1 c2 c3 c4 c5 Let_def
        round_def)
  have "0 \<le> x0" by (simp add: x0_def)
  moreover have "round (x0 * 3000) = 19" unfolding x0_def by (simp add: round_def)
  ultimately have spec: "clamp (round (sqrt ((x0 - 0) ^ 2 + (0 - 0) ^ 2) * 3000)) 15 60 = 19"
    by (simp add: clamp_def)
  have near: "fl 0.0065 = x0"
    unfolding x0_def
    using fl_eq [of "- 8" "0.0065" 7493989779944505] by simp
  from code spec near show ?thesis by (simp only: x0_def)
qed

text \<open>
  C3. \<open>getJobDuration\<close> returns a positive number of minutes for every category,
  present or not: the six values of the table, and 60 for a missing category and for
  every string that is not in the table.
\<close>

theorem getJobDuration_table:
  "0 < getJobDuration c \<and>
   getJobDuration (Some ''Geyser Replacement'') = 180 \<and>
   getJobDuration (Some ''Geyser Assessment'') = 60 \<and>
   getJobDuration (Some ''Leak Detection'') = 120 \<and>
   getJobDuration (Some ''Drain Blockage'') = 90 \<and>
   getJobDuration (Some ''Camera Inspection'') = 75 \<and>
   getJobDuration (Some ''Toilet/Shower'') = 90 \<and>
   getJobDuration None = 60 \<and>
   (c \<notin> {Some ''Geyser Replacement'', Some ''Geyser Assessment'', Some ''Leak Detection'',
          Some ''Drain Blockage'', Some ''Camera Inspection'', Some ''Toilet/Shower''}
      \<longrightarrow> getJobDuration c = 60)"
  by (simp add: getJobDuration_def)

theorem getJobDuration_table_witness:
  "Some ''Plumbing'' \<notin> {Some ''Geyser Replacement'', Some ''Geyser Assessment'',
      Some ''Leak Detection'', Some ''Drain Blockage'', Some ''Camera Inspection'',
      Some ''Toilet/Shower''}
   \<and> getJobDuration (Some ''Plumbing'') = 60 \<and> 0 < getJobDuration (Some ''Plumbing'')"
  using getJobDuration_table [of "Some ''Plumbing''"] by simp

text \<open>
  C4, as the code has it. On a well-formed time (hour below 24, minute below 60, both
  zero-padded to two digits) and a non-negative integer number of minutes,
  \<open>addMinutes\<close> renders the minute count modulo 1440, so it wraps past midnight,
  whenever the count \<open>hour * 60 + minute + minutes\<close> does not exceed \<open>2^53\<close> and is
  therefore exact in a double; \<open>subtractMinutes\<close> renders the difference clamped below
  at zero, so it stops at \<open>00:00\<close>, for every number of minutes; the two examples of the
  specification are instances.
\<close>

theorem addMinutes_wraps_subtractMinutes_clamps:
  "h < 24 \<Longrightarrow> m < 60 \<Longrightarrow>
     (h * 60 + m + n \<le> 2 ^ 53 \<longrightarrow>
        addMinutes (hhmm h m) (int n) = Some (hhmm_of_minutes ((h * 60 + m + n) mod 1440))) \<and>
     subtractMinutes (hhmm h m) (int n) =
       Some (hhmm_of_minutes (nat (max 0 (int (h * 60 + m) - int n)))) \<and>
     addMinutes ''23:50'' 20 = Some ''00:10'' \<and>
     subtractMinutes ''00:10'' 30 = Some ''00:00''"
proof -
  assume h: "h < 24" and m: "m < 60"
  have "nat (max 0 (int (h * 60 + m) - int n)) = h * 60 + m - n" by simp
  then have "subtractMinutes (hhmm h m) (int n) =
       Some (hhmm_of_minutes (nat (max 0 (int (h * 60 + m) - int n))))"
    by (simp only: subtractMinutes_hhmm [OF h m])
  moreover have "addMinutes ''23:50'' 20 = Some ''00:10''" by code_simp
  moreover have "subtractMinutes ''00:10'' 30 = Some ''00:00''" by code_simp
  ultimately show ?thesis
    using addMinutes_hhmm [OF h m, of n] by blast
qed

theorem addMinutes_wraps_subtractMinutes_clamps_witness:
  "(23::nat) < 24 \<and> (50::nat) < 60 \<and> (23::nat) * 60 + 50 + 20 \<le> 2 ^ 53 \<and>
   addMinutes (hhmm 23 50) (int 20) = Some (hhmm_of_minutes ((23 * 60 + 50 + 20) mod 1440)) \<and>
   subtractMinutes (hhmm 0 10) (int 30) =
     Some (hhmm_of_minutes (nat (max 0 (int (0 * 60 + 10) - int 30)))) \<and>
   (0::nat) * 60 + 0 + 2 ^ 53 \<le> 2 ^ 53 \<and>
   addMinutes (hhmm 0 0) (int (2 ^ 53)) = Some (hhmm_of_minutes ((0 * 60 + 0 + 2 ^ 53) mod 1440))"
proof -
  have a: "(23::nat) < 24" and b: "(50::nat) < 60" and c: "(0::nat) < 24" and d: "(10::nat) < 60"
    and e: "(0::nat) < 60"
    by simp_all
  have f: "(23::nat) * 60 + 50 + 20 \<le> 2 ^ 53" and g: "(0::nat) * 60 + 0 + 2 ^ 53 \<le> 2 ^ 53"
    by simp_all
  from addMinutes_wraps_subtractMinutes_clamps [OF a b, of 20]
       addMinutes_wraps_subtractMinutes_clamps [OF c d, of 30]
       addMinutes_wraps_subtractMinutes_clamps [OF c e, of "2 ^ 53"] a b f g
  show ?thesis by blast
qed

text \<open>
  The claim as stated fails when the minute count is not a double: one minute past
  midnight plus \<open>2^53\<close> minutes is \<open>2^53 + 1\<close>, which the addition rounds to \<open>2^53\<close>;
  \<open>addMinutes\<close> returns \<open>00:32\<close>, and the minute count modulo 1440 is 33.
\<close>

theorem addMinutes_rounding_counterexample:
  "addMinutes ''00:01'' (2 ^ 53) = Some ''00:32'' \<and>
   (0 * 60 + 1 + 2 ^ 53) mod 1440 = (33::nat) \<and>
   hhmm_of_minutes 33 = ''00:33'' \<and> hhmm 0 1 = ''00:01''"
proof -
  have "addMinutes ''00:01'' (2 ^ 53) = Some ''00:32''" by code_simp
  moreover have "(0 * 60 + 1 + 2 ^ 53) mod 1440 = (33::nat)" by simp
  moreover have "hhmm_of_minutes 33 = ''00:33''" by code_simp
  moreover have "hhmm 0 1 = ''00:01''" by code_simp
  ultimately show ?thesis by (intro conjI)
qed

section \<open>Properties of the day schedule builder\<close>

text \<open>
  C1, as the code has it. The late-shift flag of the builder is
  \<open>workingLateShift || isLateShiftWeek(date)\<close>: an explicit \<open>true\<close> makes the shift
  late whatever the week; an explicit \<open>false\<close>, like a missing value, leaves the decision
  to \<open>isLateShiftWeek(date)\<close>. The shift ends at \<open>19:00\<close> when the flag is true and at
  \<open>17:00\<close> when it is false.
\<close>

theorem shift_resolution:
  "(u_workingLateShift s = Some True \<longrightarrow> isLateShift s d) \<and>
   (u_workingLateShift s \<noteq> Some True \<longrightarrow> isLateShift s d = isLateShiftWeek d) \<and>
   shiftEnd s d = (if isLateShift s d then ''19:00'' else ''17:00'')"
  by (auto simp: isLateShift_def shiftEnd_def split: option.splits bool.splits)

theorem shift_resolution_witness:
  "u_workingLateShift (ex_staff\<lparr>u_workingLateShift := Some True\<rparr>) = Some True \<and>
   isLateShift (ex_staff\<lparr>u_workingLateShift := Some True\<rparr>) ex_day \<and>
   shiftEnd (ex_staff\<lparr>u_workingLateShift := Some True\<rparr>) ex_day = ''19:00'' \<and>
   u_workingLateShift ex_staff \<noteq> Some True \<and>
   isLateShift ex_staff ex_late_day = isLateShiftWeek ex_late_day"
proof -
  have a: "u_workingLateShift (ex_staff\<lparr>u_workingLateShift := Some True\<rparr>) = Some True" by simp
  have b: "u_workingLateShift ex_staff \<noteq> Some True" by (simp add: ex_staff_def)
  from shift_resolution [of "ex_staff\<lparr>u_workingLateShift := Some True\<rparr>" ex_day]
       shift_resolution [of ex_staff ex_late_day] a b
  show ?thesis by simp
qed

text \<open>
  The claim as stated fails for an explicit \<open>false\<close>: on Monday 8 January 2024, a late
  week, a staff member with \<open>workingLateShift = false\<close> is on the late shift and the day
  ends at \<open>19:00\<close>.
\<close>

theorem explicit_false_counterexample:
  "u_workingLateShift (ex_staff\<lparr>u_workingLateShift := Some False\<rparr>) = Some False \<and>
   isLateShift (ex_staff\<lparr>u_workingLateShift := Some False\<rparr>) ex_late_day \<and>
   shiftEnd (ex_staff\<lparr>u_workingLateShift := Some False\<rparr>) ex_late_day = ''19:00'' \<and>
   generateDaySchedule ex_rnd 0 [] (Some (ex_staff\<lparr>u_workingLateShift := Some False\<rparr>))
       (Some ex_late_day) =
     (Inr [base_entry (ex_staff\<lparr>u_workingLateShift := Some False\<rparr>), end_entry ''19:00'' True], 0)"
proof -
  let ?s = "ex_staff\<lparr>u_workingLateShift := Some False\<rparr>"
  have late: "isLateShift ?s ex_late_day"
    by (simp add: isLateShift_def ex_late_week)
  then have se: "shiftEnd ?s ex_late_day = ''19:00''" by (simp add: shiftEnd_def)
  have id: "truthy (u_id ex_staff)" by (simp add: ex_staff_def truthy_def)
  have "generateDaySchedule ex_rnd 0 [] (Some ?s) (Some ex_late_day) =
      (Inr [base_entry ?s, end_entry (shiftEnd ?s ex_late_day) (isLateShift ?s ex_late_day)], 0)"
    by (simp add: generateDaySchedule_def id sortedJobs_def dayJobs_def Array_sort_def
        loop_start_def compareTime_start_shiftEnd)
  with late se show ?thesis by simp
qed

text \<open>
  C5. For a valid staff member, any date, job list and random draws, the builder returns
  a schedule whose last entry is the end entry; its time is the running current time of
  the loop when \<open>compareTime\<close> ranks that strictly after the shift end and the shift end
  otherwise, so \<open>compareTime\<close> never ranks it before the shift end, which is \<open>19:00\<close> on
  a late shift and \<open>17:00\<close> on a normal one.
\<close>

theorem end_time_floor:
  "valid_staff s \<Longrightarrow>
   \<exists>st' c sched k.
     forEach_job rnd (sortedJobs jobs s d) (loop_start s n) = Inr st' \<and>
     generateDaySchedule rnd n jobs (Some s) (Some d) = (Inr sched, k) \<and>
     sched \<noteq> [] \<and> type (last sched) = End \<and>
     compareTime (currentTime st') (shiftEnd s d) = Some c \<and>
     time (last sched) = (if 0 < c then currentTime st' else shiftEnd s d) \<and>
     (\<exists>c'. compareTime (time (last sched)) (shiftEnd s d) = Some c' \<and> 0 \<le> c') \<and>
     shiftEnd s d = (if isLateShift s d then ''19:00'' else ''17:00'')"
proof -
  assume v: "valid_staff s"
  from generateDaySchedule_shape [OF v, of rnd jobs d n] obtain st' segs c where
    run: "forEach_job rnd (sortedJobs jobs s d) (loop_start s n) = Inr st'" and
    c: "compareTime (currentTime st') (shiftEnd s d) = Some c" and
    gen: "generateDaySchedule rnd n jobs (Some s) (Some d) =
       (Inr (base_entry s # concat segs @
             [end_entry (if 0 < c then currentTime st' else shiftEnd s d) (isLateShift s d)]),
        n + 4 * length segs)"
    by blast
  let ?e = "if 0 < c then currentTime st' else shiftEnd s d"
  let ?sched = "base_entry s # concat segs @ [end_entry ?e (isLateShift s d)]"
  have last: "last ?sched = end_entry ?e (isLateShift s d)" by simp
  have floor: "\<exists>c'. compareTime ?e (shiftEnd s d) = Some c' \<and> 0 \<le> c'"
    using c by (cases "0 < c") (simp_all add: compareTime_refl_shiftEnd)
  have "?sched \<noteq> []" by simp
  moreover have "type (last ?sched) = End" unfolding last by (simp add: end_entry_def)
  moreover have "time (last ?sched) = ?e" unfolding last by (simp add: end_entry_def)
  moreover have "\<exists>c'. compareTime (time (last ?sched)) (shiftEnd s d) = Some c' \<and> 0 \<le> c'"
    unfolding last using floor by (simp add: end_entry_def)
  moreover have "shiftEnd s d = (if isLateShift s d then ''19:00'' else ''17:00'')"
    by (simp add: shiftEnd_def)
  ultimately show ?thesis using run c gen by blast
qed

theorem end_time_floor_witness:
  "valid_staff ex_staff \<and>
   (\<exists>st' c sched k.
     forEach_job ex_rnd (sortedJobs [Some ex_job] ex_staff ex_day) (loop_start ex_staff 0) = Inr st' \<and>
     generateDaySchedule ex_rnd 0 [Some ex_job] (Some ex_staff) (Some ex_day) = (Inr sched, k) \<and>
     sched \<noteq> [] \<and> type (last sched) = End \<and>
     compareTime (currentTime st') (shiftEnd ex_staff ex_day) = Some c \<and>
     time (last sched) = (if 0 < c then currentTime st' else shiftEnd ex_staff ex_day) \<and>
     (\<exists>c'. compareTime (time (last sched)) (shiftEnd ex_staff ex_day) = Some c' \<and> 0 \<le> c') \<and>
     shiftEnd ex_staff ex_day = (if isLateShift ex_staff ex_day then ''19:00'' else ''17:00''))"
  using ex_valid_staff end_time_floor [OF ex_valid_staff, of ex_rnd "[Some ex_job]" ex_day 0]
  by (rule conjI)

text \<open>
  C6. When no job of the list is assigned to the staff member with a due date on the
  given day, the schedule has exactly two entries: the base entry at \<open>05:00\<close> and the
  end entry at the shift end, \<open>05:00\<close> being ranked before it by \<open>compareTime\<close>.
\<close>

theorem no_matching_jobs_two_entries:
  "truthy (u_id s) \<Longrightarrow>
   \<forall>j. Some j \<in> set jobs \<longrightarrow>
       \<not> (j_assignedTo j = u_id s \<and> (\<exists>dd. j_dueDate j = Some dd \<and> isSameDay dd d)) \<Longrightarrow>
   generateDaySchedule rnd n jobs (Some s) (Some d) =
     (Inr [base_entry s, end_entry (shiftEnd s d) (isLateShift s d)], n) \<and>
   type (base_entry s) = Base \<and> time (base_entry s) = ''05:00'' \<and>
   type (end_entry (shiftEnd s d) (isLateShift s d)) = End \<and>
   time (end_entry (shiftEnd s d) (isLateShift s d)) = shiftEnd s d \<and>
   (\<exists>c. compareTime ''05:00'' (shiftEnd s d) = Some c \<and> c < 0)"
proof -
  assume id: "truthy (u_id s)"
    and none: "\<forall>j. Some j \<in> set jobs \<longrightarrow>
       \<not> (j_assignedTo j = u_id s \<and> (\<exists>dd. j_dueDate j = Some dd \<and> isSameDay dd d))"
  have sorted: "sortedJobs jobs s d = []"
    by (simp add: sortedJobs_def dayJobs_empty [OF none] Array_sort_def)
  have "generateDaySchedule rnd n jobs (Some s) (Some d) =
     (Inr [base_entry s, end_entry (shiftEnd s d) (isLateShift s d)], n)"
    by (simp add: generateDaySchedule_def id sorted compareTime_start_shiftEnd loop_start_def)
  moreover have "\<exists>c. compareTime ''05:00'' (shiftEnd s d) = Some c \<and> c < 0"
    by (simp add: compareTime_start_shiftEnd)
  ultimately show ?thesis by (simp add: base_entry_def end_entry_def)
qed

theorem no_matching_jobs_two_entries_witness:
  "truthy (u_id (ex_staff\<lparr>u_id := Some ''s2''\<rparr>)) \<and>
   generateDaySchedule ex_rnd 0 [Some ex_job] (Some (ex_staff\<lparr>u_id := Some ''s2''\<rparr>)) (Some ex_day) =
     (Inr [base_entry (ex_staff\<lparr>u_id := Some ''s2''\<rparr>),
           end_entry (shiftEnd (ex_staff\<lparr>u_id := Some ''s2''\<rparr>) ex_day)
             (isLateShift (ex_staff\<lparr>u_id := Some ''s2''\<rparr>) ex_day)], 0)"
proof -
  let ?s = "ex_staff\<lparr>u_id := Some ''s2''\<rparr>"
  have a: "truthy (u_id ?s)" by (simp add: truthy_def)
  have b: "\<forall>j. Some j \<in> set [Some ex_job] \<longrightarrow>
       \<not> (j_assignedTo j = u_id ?s \<and> (\<exists>dd. j_dueDate j = Some dd \<and> isSameDay dd ex_day))"
    by (simp add: ex_job_def)
  from no_matching_jobs_two_entries [OF a b, of ex_rnd 0] a show ?thesis by blast
qed

text \<open>
  C7. The claim describes the schedule the code is written to build: the comment above
  the comparator reads "Sort jobs by time", and the filter and the time slot read the
  due date with \<open>parseISO\<close>. The comparator reads it with \<open>new Date\<close> instead. On jobs
  whose \<open>dueDate\<close> strings are \<open>2024-01-02T10\<close> and \<open>2024-01-02T08\<close>, in this order in
  the job list, the comparator returns \<open>NaN\<close> and the sort leaves the jobs as they are:
  for any random draws, the schedule of the Cape Town staff member has the 10:00 job
  before the 08:00 job, against the ascending order of due time that the claim states.
  The rest of the shape is as claimed: the base entry at \<open>05:00\<close> at the Cape Town base,
  a travel entry before each job entry, and the end entry.
\<close>

theorem jobs_left_unsorted:
  "(\<exists>ts1 tt1 ts2 tt2.
      generateDaySchedule rnd n [Some ex_job_10, Some ex_job_08] (Some ex_staff) (Some ex_day) =
        (Inr [base_entry ex_staff,
              travel_entry ex_job_10 ts1 tt1, job_entry ex_job_10 ''10:00'',
              travel_entry ex_job_08 ts2 tt2, job_entry ex_job_08 ''08:00'',
              end_entry ''17:00'' False], n + 8)) \<and>
   sortedJobs [Some ex_job_10, Some ex_job_08] ex_staff ex_day = [ex_job_10, ex_job_08] \<and>
   dueDate_cmp ex_job_10 ex_job_08 = 0 \<and>
   due_ms ex_job_08 < due_ms ex_job_10 \<and>
   base_entry ex_staff =
     \<lparr>time = ''05:00'', type = Base,
      location = Some ''98 Marine Dr, Paarden Eiland, Cape Town, 7405'',
      description = ''Start shift at base location'', jobId = None, estimatedDuration = None,
      coordinates = Some \<lparr>lat = fl (- 33.8903), lng = fl 18.4979\<rparr>\<rparr>"
proof -
  let ?jobs = "[Some ex_job_10, Some ex_job_08]"
  have cmp: "dueDate_cmp ex_job_10 ex_job_08 = 0"
    by (simp add: dueDate_cmp_def ex_job_10_def ex_job_08_def)
  have day: "dayJobs ?jobs ex_staff ex_day = [ex_job_10, ex_job_08]"
    by (simp add: dayJobs_def ex_job_10_def ex_job_08_def ex_staff_def ex_day_def isSameDay_def)
  have srt: "sortedJobs ?jobs ex_staff ex_day = [ex_job_10, ex_job_08]"
    by (simp add: sortedJobs_def day Array_sort_def cmp)
  obtain "from" where loc: "currentLocation (loop_start ex_staff n) = Some from"
    using baseLocationData_coords [OF ex_valid_staff] by (auto simp: loop_start_def)
  have due10: "j_dueDate ex_job_10 = Some (ValidDate \<lparr>d_year = 2024, d_month = 1, d_day = 2,
      d_hours = 10, d_minutes = 0, getTime = jan1_2024 + 86400000 + 10 * 3600000\<rparr>)"
    by (simp add: ex_job_10_def)
  have due08: "j_dueDate ex_job_08 = Some (ValidDate \<lparr>d_year = 2024, d_month = 1, d_day = 2,
      d_hours = 8, d_minutes = 0, getTime = jan1_2024 + 86400000 + 8 * 3600000\<rparr>)"
    by (simp add: ex_job_08_def)
  have id10: "truthy (j_id ex_job_10)" and id08: "truthy (j_id ex_job_08)"
    by (simp_all add: ex_job_10_def ex_job_08_def truthy_def)
  have dur: "getJobDuration (Some (or_default (j_category ex_job_10) ''Other'')) = 120"
    "getJobDuration (Some (or_default (j_category ex_job_08) ''Other'')) = 120"
    by (simp_all add: ex_job_10_def ex_job_08_def or_default_def getJobDuration_def)
  have hm10: "d_hours \<lparr>d_year = 2024, d_month = 1, d_day = 2, d_hours = 10,
      d_minutes = 0, getTime = jan1_2024 + 86400000 + 10 * 3600000\<rparr> mod 24 = 10"
    "d_minutes \<lparr>d_year = 2024, d_month = 1, d_day = 2, d_hours = 10,
      d_minutes = 0, getTime = jan1_2024 + 86400000 + 10 * 3600000\<rparr> mod 60 = 0"
    by simp_all
  have hm08: "d_hours \<lparr>d_year = 2024, d_month = 1, d_day = 2, d_hours = 8,
      d_minutes = 0, getTime = jan1_2024 + 86400000 + 8 * 3600000\<rparr> mod 24 = 8"
    "d_minutes \<lparr>d_year = 2024, d_month = 1, d_day = 2, d_hours = 8,
      d_minutes = 0, getTime = jan1_2024 + 86400000 + 8 * 3600000\<rparr> mod 60 = 0"
    by simp_all
  have t10: "hhmm 10 0 = ''10:00''" and t08: "hhmm 8 0 = ''08:00''"
    and t12: "hhmm_of_minutes ((10 * 60 + 0 + nat 120) mod 1440) = ''12:00''"
    and t10': "hhmm_of_minutes ((8 * 60 + 0 + nat 120) mod 1440) = ''10:00''"
    by code_simp+
  define tt1 where "tt1 = estimateTravelTime from (jitter rnd n)"
  define ts1 where "ts1 = hhmm_of_minutes (10 * 60 + 0 - nat tt1)"
  define st1 where "st1 =
    \<lparr>schedule = [base_entry ex_staff, travel_entry ex_job_10 ts1 tt1, job_entry ex_job_10 ''10:00''],
     currentTime = ''12:00'', currentLocation = Some (jitter rnd (n + 2)), drawn = n + 4\<rparr>"
  have body1: "job_body rnd ex_job_10 (loop_start ex_staff n) = Inr st1"
    using job_body_ok [OF id10 due10 loc, of rnd, unfolded hm10 dur t10 t12]
    by (simp add: loop_start_def st1_def ts1_def tt1_def)
  define tt2 where "tt2 = estimateTravelTime (jitter rnd (n + 2)) (jitter rnd (n + 4))"
  define ts2 where "ts2 = hhmm_of_minutes (8 * 60 + 0 - nat tt2)"
  define st2 where "st2 =
    \<lparr>schedule = [base_entry ex_staff, travel_entry ex_job_10 ts1 tt1, job_entry ex_job_10 ''10:00'',
                 travel_entry ex_job_08 ts2 tt2, job_entry ex_job_08 ''08:00''],
     currentTime = ''10:00'', currentLocation = Some (jitter rnd (n + 6)), drawn = n + 8\<rparr>"
  have loc1: "currentLocation st1 = Some (jitter rnd (n + 2))" by (simp add: st1_def)
  have body2: "job_body rnd ex_job_08 st1 = Inr st2"
    using job_body_ok [OF id08 due08 loc1, of rnd, unfolded hm08 dur t08 t10']
    by (simp add: st1_def st2_def ts2_def tt2_def add.commute)
  have run: "forEach_job rnd [ex_job_10, ex_job_08] (loop_start ex_staff n) = Inr st2"
    by (simp add: body1 body2)
  have cmpt: "compareTime ''10:00'' ''17:00'' = Some (- 420)" by code_simp
  have id': "truthy (u_id ex_staff)" by (simp add: ex_staff_def truthy_def)
  have gen: "generateDaySchedule rnd n ?jobs (Some ex_staff) (Some ex_day) =
      (Inr [base_entry ex_staff,
            travel_entry ex_job_10 ts1 tt1, job_entry ex_job_10 ''10:00'',
            travel_entry ex_job_08 ts2 tt2, job_entry ex_job_08 ''08:00'',
            end_entry ''17:00'' False], n + 8)"
    using ex_not_late
    by (simp add: generateDaySchedule_def id' srt run shiftEnd_def cmpt st2_def
        del: forEach_job.simps)
  have ms: "due_ms ex_job_08 < due_ms ex_job_10"
    by (simp add: due_ms_def ex_job_10_def ex_job_08_def)
  have base: "base_entry ex_staff =
     \<lparr>time = ''05:00'', type = Base,
      location = Some ''98 Marine Dr, Paarden Eiland, Cape Town, 7405'',
      description = ''Start shift at base location'', jobId = None, estimatedDuration = None,
      coordinates = Some \<lparr>lat = fl (- 33.8903), lng = fl 18.4979\<rparr>\<rparr>"
    unfolding base_entry_def baseLocationData_def BASE_LOCATIONS_def ex_staff_def or_default_def
    by (simp only: Let_def user.simps option.case list.simps if_False if_True refl
        base_location.simps char.inject simp_thms)
  from gen srt cmp ms base show ?thesis by blast
qed

text \<open>
  C10. In every schedule built for a valid staff member, each job entry comes right
  after a travel entry, every travel entry has a duration between 15 and 60, and there
  are as many travel entries as job entries, one pair for each matching job that has an
  id: the travel time is always positive, so the guard on it never fails.
\<close>

theorem travel_before_every_job:
  "valid_staff s \<Longrightarrow>
   \<exists>sched k.
     generateDaySchedule rnd n jobs (Some s) (Some d) = (Inr sched, k) \<and>
     (\<forall>i<length sched. type (sched ! i) = Job \<longrightarrow> 0 < i \<and> type (sched ! (i - 1)) = Travel) \<and>
     (\<forall>e\<in>set sched. type e = Travel \<longrightarrow>
        (\<exists>tt. estimatedDuration e = Some tt \<and> 15 \<le> tt \<and> tt \<le> 60)) \<and>
     length (filter (\<lambda>e. type e = Job) sched) =
       length (filter (\<lambda>j. truthy (j_id j)) (sortedJobs jobs s d)) \<and>
     length (filter (\<lambda>e. type e = Travel) sched) = length (filter (\<lambda>e. type e = Job) sched) \<and>
     (\<forall>a b. 0 < estimateTravelTime a b)"
proof -
  assume v: "valid_staff s"
  let ?R = "\<lambda>job seg. \<exists>ts tt. seg = [travel_entry job ts tt, job_entry job (due_slot job)] \<and>
                  15 \<le> tt \<and> tt \<le> 60 \<and> subtractMinutes (due_slot job) tt = Some ts"
  let ?js = "filter (\<lambda>j. truthy (j_id j)) (sortedJobs jobs s d)"
  from generateDaySchedule_shape [OF v, of rnd jobs d n] obtain st' segs c where
    "forEach_job rnd (sortedJobs jobs s d) (loop_start s n) = Inr st'" and
    "compareTime (currentTime st') (shiftEnd s d) = Some c" and
    gen: "generateDaySchedule rnd n jobs (Some s) (Some d) =
       (Inr (base_entry s # concat segs @
             [end_entry (if 0 < c then currentTime st' else shiftEnd s d) (isLateShift s d)]),
        n + 4 * length segs)" and
    all: "list_all2 ?R ?js segs"
    by (elim exE conjE)
  let ?e = "end_entry (if 0 < c then currentTime st' else shiftEnd s d) (isLateShift s d)"
  let ?sched = "base_entry s # concat segs @ [?e]"
  have types: "map type ?sched = Base # concat (replicate (length ?js) [Travel, Job]) @ [End]"
    using segs_types [OF all] by (simp add: base_entry_def end_entry_def)
  have adj: "\<forall>i<length ?sched. type (?sched ! i) = Job \<longrightarrow> 0 < i \<and> type (?sched ! (i - 1)) = Travel"
    using job_after_travel [OF types] by blast
  have dur: "\<forall>e\<in>set ?sched. type e = Travel \<longrightarrow>
        (\<exists>tt. estimatedDuration e = Some tt \<and> 15 \<le> tt \<and> tt \<le> 60)"
  proof (intro ballI impI)
    fix e assume e: "e \<in> set ?sched" and t: "type e = Travel"
    from e t have "e \<in> set (concat segs)"
      by (auto simp: base_entry_def end_entry_def)
    from segs_travel_durations [OF all this t]
    show "\<exists>tt. estimatedDuration e = Some tt \<and> 15 \<le> tt \<and> tt \<le> 60" .
  qed
  have cnt: "length (filter (\<lambda>e. type e = Job) ?sched) = length ?js"
    "length (filter (\<lambda>e. type e = Travel) ?sched) = length (filter (\<lambda>e. type e = Job) ?sched)"
    using count_entries [OF types] by simp_all
  have pos: "\<forall>a b. 0 < estimateTravelTime a b"
  proof (intro allI)
    fix a b
    from estimateTravelTime_bounds(1) [of a b] show "0 < estimateTravelTime a b" by simp
  qed
  from gen adj dur cnt pos show ?thesis by blast
qed

theorem travel_before_every_job_witness:
  "valid_staff ex_staff \<and>
   (\<exists>sched k.
     generateDaySchedule ex_rnd 0 [Some ex_job] (Some ex_staff) (Some ex_day) = (Inr sched, k) \<and>
     length (filter (\<lambda>e. type e = Job) sched) =
       length (filter (\<lambda>j. truthy (j_id j)) (sortedJobs [Some ex_job] ex_staff ex_day)) \<and>
     length (filter (\<lambda>e. type e = Travel) sched) = length (filter (\<lambda>e. type e = Job) sched))"
proof -
  from travel_before_every_job [OF ex_valid_staff, of ex_rnd 0 "[Some ex_job]" ex_day]
  obtain sched k where
    "generateDaySchedule ex_rnd 0 [Some ex_job] (Some ex_staff) (Some ex_day) = (Inr sched, k)"
    "length (filter (\<lambda>e. type e = Job) sched) =
       length (filter (\<lambda>j. truthy (j_id j)) (sortedJobs [Some ex_job] ex_staff ex_day))"
    "length (filter (\<lambda>e. type e = Travel) sched) = length (filter (\<lambda>e. type e = Job) sched)"
    by blast
  with ex_valid_staff show ?thesis by blast
qed

section \<open>Properties of the week aggregator and of the export\<close>

text \<open>
  C8. The days the component hands to \<open>generateSchedules\<close> are the seven days of the
  selected week, which the component only ever sets to the current date or moves by whole
  weeks: each is a valid date, and the aggregator skips a missing one. On such days
  \<open>generateSchedules\<close> returns a schedule map and raises nothing, whatever the staff
  list, the jobs and the random draws; the map has a cell for each staff member with role
  \<open>staff\<close> and an id and each valid day. The day builder returns the empty list when the
  staff member, its id or the date is missing. A job without an id is skipped and the
  loop goes on with the remaining jobs. One step of the aggregator on a valid day stores
  in that day's cell what the builder returns, or the empty list when the builder raises,
  and changes no other cell.
\<close>

theorem schedule_generation_degrades:
  "\<forall>d\<in>set weekDays. d \<noteq> Some InvalidDate \<Longrightarrow>
   (\<exists>m k. generateSchedules rnd n jobs staff weekDays = Inr (m, k) \<and>
      dom m = {cell_key s t |s t. Some s \<in> set staff \<and> u_role s = ''staff'' \<and>
                  truthy (u_id s) \<and> Some (ValidDate t) \<in> set weekDays}) \<and>
   generateDaySchedule rnd n jobs None date = (Inr [], n) \<and>
   generateDaySchedule rnd n jobs staffMember None = (Inr [], n) \<and>
   (\<not> truthy (u_id s) \<longrightarrow> generateDaySchedule rnd n jobs (Some s) date = (Inr [], n)) \<and>
   (\<not> truthy (j_id job) \<longrightarrow> forEach_job rnd (job # js) st = forEach_job rnd js st) \<and>
   (\<exists>m' k'. day_cell rnd jobs s (Some (ValidDate t)) (m0, k0) = Inr (m', k') \<and>
      m' (cell_key s t) =
        Some (case fst (generateDaySchedule rnd k0 jobs (Some s) (Some (ValidDate t))) of
                Inr entries \<Rightarrow> entries | Inl e \<Rightarrow> []) \<and>
      (\<forall>key. key \<noteq> cell_key s t \<longrightarrow> m' key = m0 key))"
proof -
  assume days: "\<forall>d\<in>set weekDays. d \<noteq> Some InvalidDate"
  from generateSchedules_ok [OF days, of rnd n jobs staff] obtain m k where
    run: "generateSchedules rnd n jobs staff weekDays = Inr (m, k)" by blast
  from run generateSchedules_dom [OF days run]
  have 1: "\<exists>m k. generateSchedules rnd n jobs staff weekDays = Inr (m, k) \<and>
      dom m = {cell_key s t |s t. Some s \<in> set staff \<and> u_role s = ''staff'' \<and>
                  truthy (u_id s) \<and> Some (ValidDate t) \<in> set weekDays}"
    by blast
  from day_cell_valid [of rnd jobs s t m0 k0]
  have 2: "\<exists>m' k'. day_cell rnd jobs s (Some (ValidDate t)) (m0, k0) = Inr (m', k') \<and>
      m' (cell_key s t) =
        Some (case fst (generateDaySchedule rnd k0 jobs (Some s) (Some (ValidDate t))) of
                Inr entries \<Rightarrow> entries | Inl e \<Rightarrow> []) \<and>
      (\<forall>key. key \<noteq> cell_key s t \<longrightarrow> m' key = m0 key)"
    by auto
  have 3: "\<not> truthy (u_id s) \<longrightarrow> generateDaySchedule rnd n jobs (Some s) date = (Inr [], n)"
    by (simp add: generateDaySchedule_missing)
  have 4: "\<not> truthy (j_id job) \<longrightarrow> forEach_job rnd (job # js) st = forEach_job rnd js st"
    using forEach_job_skip [of job rnd js st] by blast
  from 1 2 3 4 generateDaySchedule_missing(1) [of rnd n jobs date]
    generateDaySchedule_missing(2) [of rnd n jobs staffMember]
  show ?thesis by (intro conjI)
qed

theorem schedule_generation_degrades_witness:
  "(\<exists>m k. generateSchedules ex_rnd 0 [Some ex_job] [Some ex_proto_staff] [Some ex_day] = Inr (m, k)) \<and>
   \<not> truthy (u_id (ex_staff\<lparr>u_id := None\<rparr>)) \<and>
   generateDaySchedule ex_rnd 0 [Some ex_job] (Some (ex_staff\<lparr>u_id := None\<rparr>)) (Some ex_day) =
     (Inr [], 0) \<and>
   \<not> truthy (j_id (ex_job\<lparr>j_id := None\<rparr>)) \<and>
   forEach_job ex_rnd [ex_job\<lparr>j_id := None\<rparr>, ex_job] (loop_start ex_staff 0) =
     forEach_job ex_rnd [ex_job] (loop_start ex_staff 0)"
proof -
  have days: "\<forall>d\<in>set [Some ex_day]. d \<noteq> Some InvalidDate" by (simp add: ex_day_def)
  have a: "\<not> truthy (u_id (ex_staff\<lparr>u_id := None\<rparr>))" by (simp add: truthy_def)
  have b: "\<not> truthy (j_id (ex_job\<lparr>j_id := None\<rparr>))" by (simp add: truthy_def)
  from schedule_generation_degrades [OF days,
      where rnd = ex_rnd and n = 0 and jobs = "[Some ex_job]" and staff = "[Some ex_proto_staff]"
        and s = "ex_staff\<lparr>u_id := None\<rparr>" and date = "Some ex_day"
        and job = "ex_job\<lparr>j_id := None\<rparr>" and js = "[ex_job]"
        and st = "loop_start ex_staff 0"] a b
  show ?thesis by blast
qed

text \<open>
  C9, as the code has it. For a staff member that is found and a week of valid days, the
  exported text is the header and the rows joined by newline characters: one row per
  entry, day by day in week order and in each day's list order, so one more row than the
  week has entries. In each row the location and the description are wrapped in double
  quotes, the other fields are bare, and the duration is 0 when the entry has none.
  Fields are not escaped: the text splits at newlines into exactly these rows when no
  entry's time, location or description contains a newline.
\<close>

theorem csv_export_shape:
  "find_staff staff staffId = Some staffMember \<Longrightarrow>
   (\<exists>name. exportScheduleCSV staff schedules (map (\<lambda>t. Some (ValidDate t)) ts)
              (Some (ValidDate w)) staffId =
            Inr (Some (name, join [newline] (csv_header # week_rows schedules staffId ts)))) \<and>
   length (csv_header # week_rows schedules staffId ts) = week_entries schedules staffId ts + 1 \<and>
   csv_header = ''Date,Time,Type,Location,Description,Duration (min)'' \<and>
   (\<forall>ds e. csv_row ds e =
      ds @ '','' @ time e @ '','' @ type_string (type e) @ '','' @
      quoted (template (location e)) @ '','' @ quoted (description e) @ '','' @
      toString_int (case estimatedDuration e of None \<Rightarrow> 0 | Some t \<Rightarrow> t)) \<and>
   (\<forall>x. quoted x = [CHR 0x22] @ x @ [CHR 0x22]) \<and>
   ((\<forall>t\<in>set ts. \<forall>e\<in>set (daySchedule schedules staffId (yyyyMMdd t)).
        newline \<notin> set (time e) \<and> newline \<notin> set (template (location e)) \<and>
        newline \<notin> set (description e)) \<longrightarrow>
    split_on newline (join [newline] (csv_header # week_rows schedules staffId ts)) =
      csv_header # week_rows schedules staffId ts)"
proof -
  assume found: "find_staff staff staffId = Some staffMember"
  have 1: "\<exists>name. exportScheduleCSV staff schedules (map (\<lambda>t. Some (ValidDate t)) ts)
              (Some (ValidDate w)) staffId =
            Inr (Some (name, join [newline] (csv_header # week_rows schedules staffId ts)))"
    using exportScheduleCSV_valid [OF found] by blast
  have 2: "length (csv_header # week_rows schedules staffId ts) =
      week_entries schedules staffId ts + 1"
    by (simp add: length_week_rows)
  have 3: "csv_header = ''Date,Time,Type,Location,Description,Duration (min)''"
    by (simp add: csv_header_def)
  have 4: "\<forall>ds e. csv_row ds e =
      ds @ '','' @ time e @ '','' @ type_string (type e) @ '','' @
      quoted (template (location e)) @ '','' @ quoted (description e) @ '','' @
      toString_int (case estimatedDuration e of None \<Rightarrow> 0 | Some t \<Rightarrow> t)"
    using csv_row_fields by blast
  have 5: "\<forall>x. quoted x = [CHR 0x22] @ x @ [CHR 0x22]"
    by (simp add: quoted_def)
  have 6: "(\<forall>t\<in>set ts. \<forall>e\<in>set (daySchedule schedules staffId (yyyyMMdd t)).
        newline \<notin> set (time e) \<and> newline \<notin> set (template (location e)) \<and>
        newline \<notin> set (description e)) \<longrightarrow>
    split_on newline (join [newline] (csv_header # week_rows schedules staffId ts)) =
      csv_header # week_rows schedules staffId ts"
  proof
    assume fields: "\<forall>t\<in>set ts. \<forall>e\<in>set (daySchedule schedules staffId (yyyyMMdd t)).
        newline \<notin> set (time e) \<and> newline \<notin> set (template (location e)) \<and>
        newline \<notin> set (description e)"
    have "\<forall>r\<in>set (csv_header # week_rows schedules staffId ts). newline \<notin> set r"
      using newline_week_rows [OF fields] newline_csv_header by simp
    then show "split_on newline (join [newline] (csv_header # week_rows schedules staffId ts)) =
      csv_header # week_rows schedules staffId ts"
      by (intro split_on_join) simp_all
  qed
  from 1 2 3 4 5 6 show ?thesis by (intro conjI)
qed

theorem csv_export_shape_witness:
  "find_staff [Some ex_staff] ''s1'' = Some ex_staff \<and>
   (\<exists>name. exportScheduleCSV [Some ex_staff] ex_schedules (map (\<lambda>t. Some (ValidDate t)) [ex_date])
              (Some (ValidDate ex_date)) ''s1'' =
            Inr (Some (name, join [newline] (csv_header # week_rows ex_schedules ''s1'' [ex_date])))) \<and>
   length (csv_header # week_rows ex_schedules ''s1'' [ex_date]) =
     week_entries ex_schedules ''s1'' [ex_date] + 1 \<and>
   split_on newline (join [newline] (csv_header # week_rows ex_schedules ''s1'' [ex_date])) =
     csv_header # week_rows ex_schedules ''s1'' [ex_date]"
  using csv_export_shape [OF ex_find_staff, of ex_schedules "[ex_date]" ex_date]
    ex_find_staff ex_fields_no_newline
  by blast

text \<open>
  The claim as stated fails on an entry whose location has two lines: the week has one
  entry, and the exported text has three lines.
\<close>

theorem csv_multiline_counterexample:
  "exportScheduleCSV [Some ex_staff] ex_multiline_schedules [Some ex_day] (Some ex_day) ''s1'' =
     Inr (Some (''Thabo_schedule_2024-01-02.csv'',
       ''Date,Time,Type,Location,Description,Duration (min)'' @ [newline] @
       ''2024-01-02,08:00,job,'' @ quoted (''12 Main Rd'' @ [newline] @ ''Unit 4'') @ '','' @
       quoted ''Unnamed Job'' @ '',120'')) \<and>
   week_entries ex_multiline_schedules ''s1'' [ex_date] = 1 \<and>
   length (split_on newline
     (''Date,Time,Type,Location,Description,Duration (min)'' @ [newline] @
      ''2024-01-02,08:00,job,'' @ quoted (''12 Main Rd'' @ [newline] @ ''Unit 4'') @ '','' @
      quoted ''Unnamed Job'' @ '',120'')) = 3"
  by code_simp

end
